theory Spec2Isabelle
  imports Main
begin

section \<open>Python values, errors and control flow\<close>

text \<open>
  The candidate handed to \<open>evaluate_solution\<close> is an arbitrary Python object. The
  values modelled are ints, strings, \<open>None\<close>, lists and tuples (floats and bools are
  not part of this universe). The instance is what \<open>_read_instance\<close> builds: ints
  and lists of ints.
\<close>

datatype pyval = PInt int | PStr string | PNone | PList "pyval list" | PTuple "pyval list"

datatype pyerr =
  TypeError | IndexError | ValueError | NameError | AttributeError | FileNotFoundError

text \<open>
  The value returned by \<open>evaluate_solution\<close>: \<open>Penalty\<close> is the float \<open>1e9\<close> bound to
  the local \<open>penalty\<close>, \<open>Makespan m\<close> is the int \<open>max(finish_times)\<close>.
\<close>

datatype score = Penalty | Makespan int

fun score_value :: "score \<Rightarrow> int" where
  "score_value Penalty = 1000000000"
| "score_value (Makespan m) = m"

text \<open>
  A statement of the function body raises, returns from the function, or falls through
  to the next statement with a value.
\<close>

datatype 'a flow = Raise pyerr | Return score | Next 'a

fun fbind :: "'a flow \<Rightarrow> ('a \<Rightarrow> 'b flow) \<Rightarrow> 'b flow" where
  "fbind (Raise e) f = Raise e"
| "fbind (Return s) f = Return s"
| "fbind (Next x) f = f x"

fun run :: "score flow \<Rightarrow> pyerr + score" where
  "run (Raise e) = Inl e"
| "run (Return s) = Inr s"
| "run (Next s) = Inr s"

subsection \<open>The operations of Python that the evaluator uses\<close>

text \<open>The items of a sequence; \<open>None\<close> for a value that has neither \<open>len\<close> nor indexing.\<close>

fun seq_items :: "pyval \<Rightarrow> pyval list option" where
  "seq_items (PList xs) = Some xs"
| "seq_items (PTuple xs) = Some xs"
| "seq_items (PStr s) = Some (map (\<lambda>c. PStr [c]) s)"
| "seq_items (PInt n) = None"
| "seq_items PNone = None"

text \<open>\<open>isinstance(v, (list, tuple))\<close>\<close>

fun is_list_or_tuple :: "pyval \<Rightarrow> bool" where
  "is_list_or_tuple (PList xs) = True"
| "is_list_or_tuple (PTuple xs) = True"
| "is_list_or_tuple v = False"

text \<open>\<open>len(v)\<close>\<close>

definition py_len :: "pyval \<Rightarrow> int flow" where
  "py_len v = (case seq_items v of None \<Rightarrow> Raise TypeError | Some xs \<Rightarrow> Next (int (length xs)))"

text \<open>\<open>xs[i]\<close> on a list: an index below zero counts from the end.\<close>

definition list_get :: "'a list \<Rightarrow> int \<Rightarrow> 'a flow" where
  "list_get xs i =
     (if 0 \<le> i \<and> i < int (length xs) then Next (xs ! nat i)
      else if i < 0 \<and> - int (length xs) \<le> i then Next (xs ! nat (int (length xs) + i))
      else Raise IndexError)"

text \<open>\<open>v[i]\<close> on a value, with an int index.\<close>

definition py_getitem :: "pyval \<Rightarrow> int \<Rightarrow> pyval flow" where
  "py_getitem v i = (case seq_items v of None \<Rightarrow> Raise TypeError | Some xs \<Rightarrow> list_get xs i)"

text \<open>\<open>xs[r]\<close> on a list with a value as index: only an int is an index.\<close>

fun list_get_py :: "'a list \<Rightarrow> pyval \<Rightarrow> 'a flow" where
  "list_get_py xs (PInt n) = list_get xs n"
| "list_get_py xs v = Raise TypeError"

text \<open>\<open>v < n\<close>, \<open>v >= n\<close>, \<open>n > v\<close> and \<open>v + n\<close> with \<open>n\<close> an int: defined on ints only.\<close>

fun py_lt_int :: "pyval \<Rightarrow> int \<Rightarrow> bool flow" where
  "py_lt_int (PInt a) n = Next (a < n)"
| "py_lt_int v n = Raise TypeError"

fun py_ge_int :: "pyval \<Rightarrow> int \<Rightarrow> bool flow" where
  "py_ge_int (PInt a) n = Next (a \<ge> n)"
| "py_ge_int v n = Raise TypeError"

fun int_gt_py :: "int \<Rightarrow> pyval \<Rightarrow> bool flow" where
  "int_gt_py n (PInt a) = Next (n > a)"
| "int_gt_py n v = Raise TypeError"

fun py_add_int :: "pyval \<Rightarrow> int \<Rightarrow> int flow" where
  "py_add_int (PInt a) n = Next (a + n)"
| "py_add_int v n = Raise TypeError"

text \<open>\<open>v == n\<close> never raises.\<close>

fun py_eq_int :: "pyval \<Rightarrow> int \<Rightarrow> bool" where
  "py_eq_int (PInt a) n = (a = n)"
| "py_eq_int v n = False"

text \<open>\<open>max(xs)\<close> raises \<open>ValueError\<close> on the empty list.\<close>

fun py_max :: "int list \<Rightarrow> int flow" where
  "py_max [] = Raise ValueError"
| "py_max (x # xs) = Next (fold max xs x)"

section \<open>The instance (the fields of the problem object)\<close>

record problem =
  nb_tasks :: int
  nb_resources :: int
  capacity :: "int list"
  task_processing_time_data :: "int list list"
  weights :: "int list list"
  nb_successors :: "int list"
  successors :: "int list list"
  horizon :: int

section \<open>evaluate_solution\<close>

subsection \<open>First loop: resource validity and finish times\<close>

text \<open>
  The body of the loop for task \<open>i\<close>: it returns the penalty, raises, or gives the value
  stored into \<open>finish_times[i]\<close>.
\<close>

definition task_finish :: "problem \<Rightarrow> pyval \<Rightarrow> pyval \<Rightarrow> nat \<Rightarrow> int flow" where
  "task_finish I task_resources start_times i =
     fbind (py_getitem task_resources (int i)) (\<lambda>r.
     fbind (py_getitem start_times (int i)) (\<lambda>st.
     fbind (py_lt_int r 0) (\<lambda>below.
     fbind (if below then Next True else py_ge_int r (nb_resources I)) (\<lambda>outside.
     if outside then Return Penalty
     else
       fbind (list_get (task_processing_time_data I) (int i)) (\<lambda>row.
       fbind (list_get_py row r) (\<lambda>proc_time.
       fbind (list_get_py (weights I) r) (\<lambda>wrow.
       fbind (list_get wrow (int i)) (\<lambda>weight.
       if proc_time = 0 \<and> weight = 0 then Return Penalty
       else py_add_int st proc_time))))))))"

fun finish_loop :: "problem \<Rightarrow> pyval \<Rightarrow> pyval \<Rightarrow> nat list \<Rightarrow> int list \<Rightarrow> int list flow" where
  "finish_loop I task_resources start_times [] finish_times = Next finish_times"
| "finish_loop I task_resources start_times (i # is) finish_times =
     fbind (task_finish I task_resources start_times i) (\<lambda>ft.
     finish_loop I task_resources start_times is (finish_times[i := ft]))"

subsection \<open>Second loop: precedence\<close>

fun succ_loop :: "pyval \<Rightarrow> int list \<Rightarrow> nat \<Rightarrow> int list \<Rightarrow> unit flow" where
  "succ_loop start_times finish_times i [] = Next ()"
| "succ_loop start_times finish_times i (succ # rest) =
     fbind (list_get finish_times (int i)) (\<lambda>ft.
     fbind (py_getitem start_times succ) (\<lambda>st.
     fbind (int_gt_py ft st) (\<lambda>late.
     if late then Return Penalty else succ_loop start_times finish_times i rest)))"

fun precedence_loop :: "problem \<Rightarrow> pyval \<Rightarrow> int list \<Rightarrow> nat list \<Rightarrow> unit flow" where
  "precedence_loop I start_times finish_times [] = Next ()"
| "precedence_loop I start_times finish_times (i # is) =
     fbind (list_get (successors I) (int i)) (\<lambda>succs.
     fbind (succ_loop start_times finish_times i succs) (\<lambda>_.
     precedence_loop I start_times finish_times is))"

subsection \<open>Third loop: the sweep over the events of each resource\<close>

text \<open>
  An event is the pair \<open>(time, delta)\<close>. The time of a start event is the entry of
  \<open>start_times\<close> as it is; the time of a finish event is an int.
\<close>

type_synonym event = "pyval \<times> int"

fun collect_events ::
  "problem \<Rightarrow> pyval \<Rightarrow> pyval \<Rightarrow> int list \<Rightarrow> nat \<Rightarrow> nat list \<Rightarrow> event list \<Rightarrow> event list flow" where
  "collect_events I task_resources start_times finish_times r [] events = Next events"
| "collect_events I task_resources start_times finish_times r (i # is) events =
     fbind (py_getitem task_resources (int i)) (\<lambda>tr.
     if py_eq_int tr (int r) then
       fbind (py_getitem start_times (int i)) (\<lambda>st.
       fbind (list_get finish_times (int i)) (\<lambda>ft.
       fbind (list_get (weights I) (int r)) (\<lambda>wrow.
       fbind (list_get wrow (int i)) (\<lambda>w.
       collect_events I task_resources start_times finish_times r is
         (events @ [(st, w), (PInt ft, - w)])))))
     else collect_events I task_resources start_times finish_times r is events)"

text \<open>
  \<open>events.sort(key=lambda x: x[0])\<close>: the sort of Python lists is stable, as
  \<open>sort_key\<close> is. Comparing an int key with a key that is not an int raises
  \<open>TypeError\<close>; a start time that is not an int has raised in the first loop already,
  so that branch is never taken from \<open>evaluate_solution\<close>.
\<close>

fun is_int :: "pyval \<Rightarrow> bool" where
  "is_int (PInt n) = True"
| "is_int v = False"

fun the_int :: "pyval \<Rightarrow> int" where
  "the_int (PInt n) = n"
| "the_int v = 0"

definition sort_events :: "event list \<Rightarrow> event list flow" where
  "sort_events events =
     (if list_all (\<lambda>e. is_int (fst e)) events
      then Next (sort_key (\<lambda>e. the_int (fst e)) events)
      else Raise TypeError)"

fun sweep :: "problem \<Rightarrow> nat \<Rightarrow> int \<Rightarrow> event list \<Rightarrow> unit flow" where
  "sweep I r current_usage [] = Next ()"
| "sweep I r current_usage ((time, delta) # events) =
     fbind (list_get (capacity I) (int r)) (\<lambda>cap.
     if current_usage + delta > cap then Return Penalty
     else sweep I r (current_usage + delta) events)"

fun capacity_loop :: "problem \<Rightarrow> pyval \<Rightarrow> pyval \<Rightarrow> int list \<Rightarrow> nat list \<Rightarrow> unit flow" where
  "capacity_loop I task_resources start_times finish_times [] = Next ()"
| "capacity_loop I task_resources start_times finish_times (r # rs) =
     fbind (collect_events I task_resources start_times finish_times r
              [0 ..< nat (nb_tasks I)] []) (\<lambda>events.
     fbind (sort_events events) (\<lambda>sorted_events.
     fbind (sweep I r 0 sorted_events) (\<lambda>_.
     capacity_loop I task_resources start_times finish_times rs)))"

subsection \<open>The whole function\<close>

definition check_schedule :: "problem \<Rightarrow> pyval \<Rightarrow> pyval \<Rightarrow> score flow" where
  "check_schedule I task_resources start_times =
     fbind (finish_loop I task_resources start_times [0 ..< nat (nb_tasks I)]
              (replicate (nat (nb_tasks I)) 0)) (\<lambda>finish_times.
     fbind (precedence_loop I start_times finish_times [0 ..< nat (nb_tasks I)]) (\<lambda>_.
     fbind (capacity_loop I task_resources start_times finish_times
              [0 ..< nat (nb_resources I)]) (\<lambda>_.
     fbind (py_max finish_times) (\<lambda>makespan.
     Return (Makespan makespan)))))"

definition evaluate_body :: "problem \<Rightarrow> pyval \<Rightarrow> score flow" where
  "evaluate_body I solution =
     (if \<not> is_list_or_tuple solution then Return Penalty
      else case seq_items solution of
        Some [task_resources, start_times] \<Rightarrow>
          fbind (py_len task_resources) (\<lambda>n1.
          if n1 \<noteq> nb_tasks I then Return Penalty
          else
            fbind (py_len start_times) (\<lambda>n2.
            if n2 \<noteq> nb_tasks I then Return Penalty
            else check_schedule I task_resources start_times))
      | _ \<Rightarrow> Return Penalty)"

definition evaluate_solution :: "problem \<Rightarrow> pyval \<Rightarrow> pyerr + score" where
  "evaluate_solution I solution = run (evaluate_body I solution)"

section \<open>The loader and the constructor\<close>

subsection \<open>Names and the path of the file\<close>

text \<open>
  The loader and the constructor run outside \<open>evaluate_solution\<close>; their errors are
  values of a sum type.
\<close>

fun ebind :: "pyerr + 'a \<Rightarrow> ('a \<Rightarrow> pyerr + 'b) \<Rightarrow> pyerr + 'b" where
  "ebind (Inl e) f = Inl e"
| "ebind (Inr x) f = f x"

text \<open>
  The names a function of the module can read. A global name is looked up in the
  namespace of the module, then among the builtins of Python; a name found in neither
  raises \<open>NameError\<close>. The only bindings whose value matters to \<open>_read_instance\<close> are
  a module with the functions of \<open>os.path\<close> and the string \<open>__file__\<close>.
\<close>

record os_path =
  path_isabs :: "string \<Rightarrow> bool"
  path_abspath :: "string \<Rightarrow> string"
  path_dirname :: "string \<Rightarrow> string"
  path_join :: "string \<Rightarrow> string \<Rightarrow> string"

datatype binding = OsModule os_path | StrValue string | Opaque

type_synonym namespace = "string \<Rightarrow> binding option"

text \<open>
  The namespace of the module after its top level has run: the attributes every module
  has, \<open>BaseProblem\<close> (line 1), \<open>random\<close> (line 2) and the class (line 4).
\<close>

definition module_globals :: "string \<Rightarrow> namespace" where
  "module_globals file =
     map_of [(''__name__'', Opaque), (''__doc__'', Opaque), (''__package__'', Opaque),
       (''__loader__'', Opaque), (''__spec__'', Opaque), (''__file__'', StrValue file),
       (''__cached__'', Opaque), (''__builtins__'', Opaque),
       (''BaseProblem'', Opaque), (''random'', Opaque),
       (''FlexibleCumulativeProblem'', Opaque)]"

text \<open>The names of the module \<open>builtins\<close> of Python 3.\<close>

definition builtin_names :: "string list" where
  "builtin_names =
    [''ArithmeticError'', ''AssertionError'', ''AttributeError'', ''BaseException'',
     ''BaseExceptionGroup'', ''BlockingIOError'', ''BrokenPipeError'', ''BufferError'',
     ''BytesWarning'', ''ChildProcessError'', ''ConnectionAbortedError'',
     ''ConnectionError'', ''ConnectionRefusedError'', ''ConnectionResetError'',
     ''DeprecationWarning'', ''EOFError'', ''Ellipsis'', ''EncodingWarning'',
     ''EnvironmentError'', ''Exception'', ''ExceptionGroup'', ''False'',
     ''FileExistsError'', ''FileNotFoundError'', ''FloatingPointError'', ''FutureWarning'',
     ''GeneratorExit'', ''IOError'', ''ImportError'', ''ImportWarning'',
     ''IndentationError'', ''IndexError'', ''InterruptedError'', ''IsADirectoryError'',
     ''KeyError'', ''KeyboardInterrupt'', ''LookupError'', ''MemoryError'',
     ''ModuleNotFoundError'', ''NameError'', ''None'', ''NotADirectoryError'',
     ''NotImplemented'', ''NotImplementedError'', ''OSError'', ''OverflowError'',
     ''PendingDeprecationWarning'', ''PermissionError'', ''ProcessLookupError'',
     ''RecursionError'', ''ReferenceError'', ''ResourceWarning'', ''RuntimeError'',
     ''RuntimeWarning'', ''StopAsyncIteration'', ''StopIteration'', ''SyntaxError'',
     ''SyntaxWarning'', ''SystemError'', ''SystemExit'', ''TabError'', ''TimeoutError'',
     ''True'', ''TypeError'', ''UnboundLocalError'', ''UnicodeDecodeError'',
     ''UnicodeEncodeError'', ''UnicodeError'', ''UnicodeTranslateError'',
     ''UnicodeWarning'', ''UserWarning'', ''ValueError'', ''Warning'',
     ''ZeroDivisionError'', ''__build_class__'', ''__debug__'', ''__doc__'',
     ''__import__'', ''__loader__'', ''__name__'', ''__package__'', ''__spec__'', ''abs'',
     ''aiter'', ''all'', ''anext'', ''any'', ''ascii'', ''bin'', ''bool'', ''breakpoint'',
     ''bytearray'', ''bytes'', ''callable'', ''chr'', ''classmethod'', ''compile'',
     ''complex'', ''copyright'', ''credits'', ''delattr'', ''dict'', ''dir'', ''divmod'',
     ''enumerate'', ''eval'', ''exec'', ''exit'', ''filter'', ''float'', ''format'',
     ''frozenset'', ''getattr'', ''globals'', ''hasattr'', ''hash'', ''help'', ''hex'',
     ''id'', ''input'', ''int'', ''isinstance'', ''issubclass'', ''iter'', ''len'',
     ''license'', ''list'', ''locals'', ''map'', ''max'', ''memoryview'', ''min'',
     ''next'', ''object'', ''oct'', ''open'', ''ord'', ''pow'', ''print'', ''property'',
     ''quit'', ''range'', ''repr'', ''reversed'', ''round'', ''set'', ''setattr'',
     ''slice'', ''sorted'', ''staticmethod'', ''str'', ''sum'', ''super'', ''tuple'',
     ''type'', ''vars'', ''zip'']"

definition load_global :: "namespace \<Rightarrow> string \<Rightarrow> pyerr + binding" where
  "load_global globals name =
     (case globals name of
        Some b \<Rightarrow> Inr b
      | None \<Rightarrow> if List.member builtin_names name then Inr Opaque else Inl NameError)"

text \<open>\<open>os.path\<close>: an attribute that only a module with path functions has.\<close>

fun attr_path :: "binding \<Rightarrow> pyerr + os_path" where
  "attr_path (OsModule p) = Inr p"
| "attr_path b = Inl AttributeError"

fun path_argument :: "binding \<Rightarrow> pyerr + string" where
  "path_argument (StrValue s) = Inr s"
| "path_argument b = Inl TypeError"

text \<open>Lines 43 to 45: the file name relative to the directory of the module.\<close>

definition resolve_filename :: "namespace \<Rightarrow> string \<Rightarrow> pyerr + string" where
  "resolve_filename globals filename =
     ebind (load_global globals ''os'') (\<lambda>os.
     ebind (attr_path os) (\<lambda>p.
     if \<not> path_isabs p filename then
       ebind (load_global globals ''__file__'') (\<lambda>f.
       ebind (path_argument f) (\<lambda>file.
       Inr (path_join p (path_dirname p (path_abspath p file)) filename)))
     else Inr filename))"

subsection \<open>Parsing the lines of the file\<close>

text \<open>
  Strings are ASCII here: \<open>strip\<close> and \<open>split\<close> cut at the ASCII whitespace, and
  \<open>int\<close> reads an optional sign and decimal digits (the digit groups \<open>1_000\<close> that
  Python also reads are a \<open>ValueError\<close> in this model).
\<close>

definition is_space :: "char \<Rightarrow> bool" where
  "is_space c \<longleftrightarrow>
     List.member [CHR 0x09, CHR 0x0A, CHR 0x0B, CHR 0x0C, CHR 0x0D,
                  CHR 0x1C, CHR 0x1D, CHR 0x1E, CHR 0x1F, CHR 0x20] c"

definition py_strip :: "string \<Rightarrow> string" where
  "py_strip s = rev (dropWhile is_space (rev (dropWhile is_space s)))"

fun split_from :: "string \<Rightarrow> string \<Rightarrow> string list" where
  "split_from [] word = (if word = [] then [] else [word])"
| "split_from (c # cs) word =
     (if is_space c then (if word = [] then split_from cs [] else word # split_from cs [])
      else split_from cs (word @ [c]))"

definition py_split :: "string \<Rightarrow> string list" where
  "py_split s = split_from s []"

definition is_digit :: "char \<Rightarrow> bool" where
  "is_digit c \<longleftrightarrow> 48 \<le> (of_char c :: nat) \<and> (of_char c :: nat) \<le> 57"

fun digits_value :: "string \<Rightarrow> int \<Rightarrow> pyerr + int" where
  "digits_value [] n = Inr n"
| "digits_value (c # cs) n =
     (if is_digit c then digits_value cs (10 * n + int (of_char c) - 48) else Inl ValueError)"

fun unsigned_int :: "string \<Rightarrow> pyerr + int" where
  "unsigned_int [] = Inl ValueError"
| "unsigned_int (c # cs) = digits_value (c # cs) 0"

fun py_int :: "string \<Rightarrow> pyerr + int" where
  "py_int [] = Inl ValueError"
| "py_int (c # cs) =
     (if c = CHR ''-'' then ebind (unsigned_int cs) (\<lambda>n. Inr (- n))
      else if c = CHR ''+'' then unsigned_int cs
      else unsigned_int (c # cs))"

text \<open>\<open>list(map(int, tokens))\<close>\<close>

fun map_int :: "string list \<Rightarrow> pyerr + int list" where
  "map_int [] = Inr []"
| "map_int (t # ts) = ebind (py_int t) (\<lambda>n. ebind (map_int ts) (\<lambda>ns. Inr (n # ns)))"

text \<open>\<open>xs[i]\<close> and \<open>max(xs)\<close> as in the evaluator, with the error as a sum.\<close>

definition list_item :: "'a list \<Rightarrow> int \<Rightarrow> pyerr + 'a" where
  "list_item xs i =
     (if 0 \<le> i \<and> i < int (length xs) then Inr (xs ! nat i)
      else if i < 0 \<and> - int (length xs) \<le> i then Inr (xs ! nat (int (length xs) + i))
      else Inl IndexError)"

fun max_item :: "int list \<Rightarrow> pyerr + int" where
  "max_item [] = Inl ValueError"
| "max_item (x # xs) = Inr (fold max xs x)"

text \<open>Lines 67 to 71: the pairs of one task line.\<close>

fun read_pairs ::
  "string list \<Rightarrow> nat list \<Rightarrow> int list \<Rightarrow> int list list \<Rightarrow> pyerr + (int list \<times> int list list)" where
  "read_pairs parts [] durations wts = Inr (durations, wts)"
| "read_pairs parts (r # rs) durations wts =
     ebind (list_item parts (2 * int r)) (\<lambda>a.
     ebind (py_int a) (\<lambda>duration.
     ebind (list_item parts (2 * int r + 1)) (\<lambda>b.
     ebind (py_int b) (\<lambda>weight_val.
     ebind (list_item wts (int r)) (\<lambda>row.
     read_pairs parts rs (durations @ [duration]) (wts[r := row @ [weight_val]]))))))"

text \<open>Lines 64 to 72.\<close>

fun read_tasks ::
  "string list \<Rightarrow> int \<Rightarrow> nat list \<Rightarrow> int list list \<Rightarrow> int list list \<Rightarrow>
     pyerr + (int list list \<times> int list list)" where
  "read_tasks lines nr [] tpd wts = Inr (tpd, wts)"
| "read_tasks lines nr (i # is) tpd wts =
     ebind (list_item lines (2 + int i)) (\<lambda>line.
     ebind (read_pairs (py_split line) [0 ..< nat nr] [] wts) (\<lambda>(durations, wts').
     read_tasks lines nr is (tpd @ [durations]) wts'))"

text \<open>Lines 77 to 82.\<close>

fun read_successors ::
  "string list \<Rightarrow> int \<Rightarrow> nat list \<Rightarrow> int list \<Rightarrow> int list list \<Rightarrow>
     pyerr + (int list \<times> int list list)" where
  "read_successors lines nt [] nbs succs = Inr (nbs, succs)"
| "read_successors lines nt (i # is) nbs succs =
     ebind (list_item lines (2 + nt + int i)) (\<lambda>line.
     ebind (list_item (py_split line) 0) (\<lambda>first.
     ebind (py_int first) (\<lambda>num_succ.
     ebind (if num_succ > 0 then map_int (drop 1 (py_split line)) else Inr []) (\<lambda>succ_list.
     read_successors lines nt is (nbs @ [num_succ]) (succs @ [succ_list])))))"

text \<open>Line 85: \<open>sum(max(task_processing_time_data[i]) for i in range(nb_tasks))\<close>\<close>

fun horizon_sum :: "int list list \<Rightarrow> nat list \<Rightarrow> pyerr + int" where
  "horizon_sum tpd [] = Inr 0"
| "horizon_sum tpd (i # is) =
     ebind (list_item tpd (int i)) (\<lambda>row.
     ebind (max_item row) (\<lambda>m.
     ebind (horizon_sum tpd is) (\<lambda>rest. Inr (m + rest))))"

type_synonym instance_tuple =
  "int \<times> int \<times> int list \<times> int list list \<times> int list list \<times> int list \<times> int list list \<times> int"

text \<open>Lines 50 to 86, on the lines that \<open>readlines\<close> gave.\<close>

definition parse_lines :: "string list \<Rightarrow> pyerr + instance_tuple" where
  "parse_lines raw =
     (let lines = map py_strip (filter (\<lambda>line. py_strip line \<noteq> []) raw) in
      ebind (list_item lines 0) (\<lambda>line0.
      ebind (list_item (py_split line0) 0) (\<lambda>t0.
      ebind (py_int t0) (\<lambda>nt.
      ebind (list_item (py_split line0) 1) (\<lambda>t1.
      ebind (py_int t1) (\<lambda>nr.
      ebind (list_item lines 1) (\<lambda>line1.
      ebind (map_int (py_split line1)) (\<lambda>cap.
      ebind (read_tasks lines nr [0 ..< nat nt] [] (replicate (nat nr) [])) (\<lambda>(tpd, wts).
      ebind (read_successors lines nt [0 ..< nat nt] [] []) (\<lambda>(nbs, succs).
      ebind (horizon_sum tpd [0 ..< nat nt]) (\<lambda>hor.
      Inr (nt, nr, cap, tpd, wts, nbs, succs, hor))))))))))))"

subsection \<open>_read_instance and __init__\<close>

text \<open>
  A file system gives the lines of the text file at a path. The second component of
  the result lists the paths handed to \<open>open\<close>.
\<close>

type_synonym filesystem = "string \<Rightarrow> string list option"

definition read_instance ::
  "namespace \<Rightarrow> filesystem \<Rightarrow> string \<Rightarrow> (pyerr + instance_tuple) \<times> string list" where
  "read_instance globals fs filename =
     (case resolve_filename globals filename of
        Inl e \<Rightarrow> (Inl e, [])
      | Inr path \<Rightarrow>
          (case fs path of
             None \<Rightarrow> (Inl FileNotFoundError, [path])
           | Some raw \<Rightarrow> (parse_lines raw, [path])))"

text \<open>\<open>__init__\<close>: the eight results become the fields of the object.\<close>

definition problem_init ::
  "namespace \<Rightarrow> filesystem \<Rightarrow> string \<Rightarrow> (pyerr + problem) \<times> string list" where
  "problem_init globals fs instance_file =
     (case read_instance globals fs instance_file of
        (Inl e, opened) \<Rightarrow> (Inl e, opened)
      | (Inr (nt, nr, cap, tpd, wts, nbs, succs, hor), opened) \<Rightarrow>
          (Inr \<lparr>nb_tasks = nt, nb_resources = nr, capacity = cap,
                task_processing_time_data = tpd, weights = wts,
                nb_successors = nbs, successors = succs, horizon = hor\<rparr>, opened))"

section \<open>Notions used to state the properties\<close>

text \<open>
  A value that is a sequence of ints: a list or a tuple whose items are the ints \<open>xs\<close>.
\<close>

definition int_seq :: "pyval \<Rightarrow> int list \<Rightarrow> bool" where
  "int_seq v xs \<longleftrightarrow> is_list_or_tuple v \<and> seq_items v = Some (map PInt xs)"

definition shaped :: "problem \<Rightarrow> bool" where
  "shaped I \<longleftrightarrow>
     0 \<le> nb_tasks I \<and> 0 \<le> nb_resources I \<and>
     length (capacity I) = nat (nb_resources I) \<and>
     length (task_processing_time_data I) = nat (nb_tasks I) \<and>
     list_all (\<lambda>row. length row = nat (nb_resources I)) (task_processing_time_data I) \<and>
     length (weights I) = nat (nb_resources I) \<and>
     list_all (\<lambda>row. length row = nat (nb_tasks I)) (weights I) \<and>
     length (successors I) = nat (nb_tasks I) \<and>
     list_all (list_all (\<lambda>j. 0 \<le> j \<and> j < nb_tasks I)) (successors I)"

definition proc_time_of :: "problem \<Rightarrow> int list \<Rightarrow> nat \<Rightarrow> int" where
  "proc_time_of I rs i = task_processing_time_data I ! i ! nat (rs ! i)"

definition weight_of :: "problem \<Rightarrow> int list \<Rightarrow> nat \<Rightarrow> int" where
  "weight_of I rs i = weights I ! nat (rs ! i) ! i"

definition finish_time :: "problem \<Rightarrow> int list \<Rightarrow> int list \<Rightarrow> nat \<Rightarrow> int" where
  "finish_time I rs sts i = sts ! i + proc_time_of I rs i"

definition invalid_resource :: "problem \<Rightarrow> int list \<Rightarrow> nat \<Rightarrow> bool" where
  "invalid_resource I rs i \<longleftrightarrow> rs ! i < 0 \<or> nb_resources I \<le> rs ! i"

definition incompatible :: "problem \<Rightarrow> int list \<Rightarrow> nat \<Rightarrow> bool" where
  "incompatible I rs i \<longleftrightarrow> proc_time_of I rs i = 0 \<and> weight_of I rs i = 0"

definition task_events :: "problem \<Rightarrow> int list \<Rightarrow> int list \<Rightarrow> int list \<Rightarrow> nat \<Rightarrow> nat \<Rightarrow> event list" where
  "task_events I rs sts fts r i =
     (if rs ! i = int r
      then [(PInt (sts ! i), weights I ! r ! i), (PInt (fts ! i), - (weights I ! r ! i))]
      else [])"

definition resource_events :: "problem \<Rightarrow> int list \<Rightarrow> int list \<Rightarrow> int list \<Rightarrow> nat \<Rightarrow> event list" where
  "resource_events I rs sts fts r =
     concat (map (task_events I rs sts fts r) [0 ..< nat (nb_tasks I)])"

definition sorted_events :: "problem \<Rightarrow> int list \<Rightarrow> int list \<Rightarrow> int list \<Rightarrow> nat \<Rightarrow> event list" where
  "sorted_events I rs sts fts r =
     sort_key (\<lambda>e. the_int (fst e)) (resource_events I rs sts fts r)"

text \<open>
  A candidate of the documented format: a list or tuple of two sequences of ints, the
  resources \<open>rs\<close> and the start times \<open>sts\<close>.
\<close>

definition schedule_of :: "pyval \<Rightarrow> int list \<Rightarrow> int list \<Rightarrow> bool" where
  "schedule_of solution rs sts \<longleftrightarrow>
     is_list_or_tuple solution \<and>
     (case seq_items solution of
        Some [task_resources, start_times] \<Rightarrow> int_seq task_resources rs \<and> int_seq start_times sts
      | _ \<Rightarrow> False)"

definition finish_times_of :: "problem \<Rightarrow> int list \<Rightarrow> int list \<Rightarrow> int list" where
  "finish_times_of I rs sts = map (finish_time I rs sts) [0 ..< nat (nb_tasks I)]"

definition resource_violation :: "problem \<Rightarrow> int list \<Rightarrow> bool" where
  "resource_violation I rs \<longleftrightarrow>
     list_ex (\<lambda>i. invalid_resource I rs i \<or> incompatible I rs i) [0 ..< nat (nb_tasks I)]"

definition precedence_violation :: "problem \<Rightarrow> int list \<Rightarrow> int list \<Rightarrow> bool" where
  "precedence_violation I rs sts \<longleftrightarrow>
     list_ex (\<lambda>i. list_ex (\<lambda>j. finish_time I rs sts i > sts ! nat j) (successors I ! i))
       [0 ..< nat (nb_tasks I)]"

definition sweep_violation :: "problem \<Rightarrow> int list \<Rightarrow> int list \<Rightarrow> bool" where
  "sweep_violation I rs sts \<longleftrightarrow>
     list_ex (\<lambda>r. sweep I r 0 (sorted_events I rs sts (finish_times_of I rs sts) r) = Return Penalty)
       [0 ..< nat (nb_resources I)]"

text \<open>
  The sum of the weights of the tasks assigned to resource \<open>r\<close> whose interval
  \<open>[start, finish)\<close> contains the instant \<open>t\<close>.
\<close>

definition active_usage :: "problem \<Rightarrow> int list \<Rightarrow> int list \<Rightarrow> nat \<Rightarrow> int \<Rightarrow> int" where
  "active_usage I rs sts r t =
     sum_list (map (\<lambda>i. weights I ! r ! i)
       (filter (\<lambda>i. rs ! i = int r \<and> sts ! i \<le> t \<and> t < finish_time I rs sts i)
          [0 ..< nat (nb_tasks I)]))"

definition nonneg_times :: "problem \<Rightarrow> bool" where
  "nonneg_times I \<longleftrightarrow>
     list_all (list_all (\<lambda>p. 0 \<le> p)) (task_processing_time_data I) \<and>
     list_all (\<lambda>c. 0 \<le> c) (capacity I)"

section \<open>Example instances and files\<close>


definition scenario2 :: problem where
  "scenario2 =
     \<lparr>nb_tasks = 2, nb_resources = 1, capacity = [5],
      task_processing_time_data = [[3], [2]], weights = [[2, 2]],
      nb_successors = [1, 0], successors = [[1], []], horizon = 5\<rparr>"

definition scenario_flex :: problem where
  "scenario_flex =
     \<lparr>nb_tasks = 2, nb_resources = 2, capacity = [4, 4],
      task_processing_time_data = [[3, 0], [2, 2]], weights = [[2, 3], [0, 1]],
      nb_successors = [0, 0], successors = [[], []], horizon = 5\<rparr>"

definition scenario3 :: problem where
  "scenario3 =
     \<lparr>nb_tasks = 2, nb_resources = 1, capacity = [4],
      task_processing_time_data = [[3], [3]], weights = [[3, 3]],
      nb_successors = [0, 0], successors = [[], []], horizon = 6\<rparr>"

definition scenario4 :: "int \<Rightarrow> int \<Rightarrow> int list list \<Rightarrow> problem" where
  "scenario4 p0 p1 succs =
     \<lparr>nb_tasks = 2, nb_resources = 1, capacity = [4],
      task_processing_time_data = [[p0], [p1]], weights = [[2, 2]],
      nb_successors = map (\<lambda>l. int (length l)) succs, successors = succs,
      horizon = p0 + p1\<rparr>"

definition tie_instance :: problem where
  "tie_instance =
     \<lparr>nb_tasks = 2, nb_resources = 1, capacity = [2],
      task_processing_time_data = [[3], [3]], weights = [[2, 2]],
      nb_successors = [0, 0], successors = [[], []], horizon = 6\<rparr>"

text \<open>
  For trying the loader: path functions for absolute paths with \<open>/\<close>, and a file
  system with the instance of \<open>scenario2\<close>.
\<close>

definition slash_paths :: os_path where
  "slash_paths =
     \<lparr>path_isabs = (\<lambda>s. take 1 s = ''/''),
      path_abspath = (\<lambda>s. s),
      path_dirname = (\<lambda>s. rev (drop 1 (dropWhile (\<lambda>c. c \<noteq> CHR ''/'') (rev s)))),
      path_join = (\<lambda>a b. a @ ''/'' @ b)\<rparr>"

definition example_fs :: filesystem where
  "example_fs =
     map_of [(''/repo/instance.txt'',
       [''2 1'' @ [CHR 0x0A], [CHR 0x0A], ''5 '' @ [CHR 0x0A], ''3 2'' @ [CHR 0x0A],
        ''2 2'' @ [CHR 0x0A], ''1 1'' @ [CHR 0x0A], ''0''])]"

section \<open>Properties\<close>

subsection \<open>Reads that succeed\<close>

lemma list_get_nat: "i < length xs \<Longrightarrow> list_get xs (int i) = Next (xs ! i)"
  by (simp add: list_get_def)

lemma list_get_nonneg: "0 \<le> j \<Longrightarrow> j < int (length xs) \<Longrightarrow> list_get xs j = Next (xs ! nat j)"
  by (simp add: list_get_def)

lemma py_getitem_int_seq:
  "int_seq v xs \<Longrightarrow> i < length xs \<Longrightarrow> py_getitem v (int i) = Next (PInt (xs ! i))"
  by (simp add: int_seq_def py_getitem_def list_get_nat)

lemma py_getitem_int_seq_nonneg:
  "int_seq v xs \<Longrightarrow> 0 \<le> j \<Longrightarrow> j < int (length xs) \<Longrightarrow> py_getitem v j = Next (PInt (xs ! nat j))"
  by (simp add: int_seq_def py_getitem_def list_get_nonneg)

lemma py_len_int_seq: "int_seq v xs \<Longrightarrow> py_len v = Next (int (length xs))"
  by (simp add: int_seq_def py_len_def)

lemma shaped_rows:
  assumes "shaped I" "i < nat (nb_tasks I)" "r < nat (nb_resources I)"
  shows "i < length (task_processing_time_data I)"
    and "r < length (task_processing_time_data I ! i)"
    and "r < length (weights I)"
    and "i < length (weights I ! r)"
    and "r < length (capacity I)"
    and "i < length (successors I)"
  using assms by (auto simp: shaped_def list_all_length)

subsection \<open>The three loops on a candidate of two int sequences\<close>

lemma task_finish_typed:
  assumes sh: "shaped I" and trs: "int_seq task_resources rs" and stv: "int_seq start_times sts"
    and lr: "length rs = nat (nb_tasks I)" and ls: "length sts = nat (nb_tasks I)"
    and i: "i < nat (nb_tasks I)"
  shows "task_finish I task_resources start_times i =
     (if invalid_resource I rs i \<or> incompatible I rs i then Return Penalty
      else Next (finish_time I rs sts i))"
proof (cases "invalid_resource I rs i")
  case True
  then show ?thesis
    using trs stv lr ls i
    by (auto simp: task_finish_def py_getitem_int_seq invalid_resource_def)
next
  case False
  then have r0: "0 \<le> rs ! i" and r1: "rs ! i < nb_resources I"
    by (auto simp: invalid_resource_def)
  then have rn: "nat (rs ! i) < nat (nb_resources I)" by simp
  note rows = shaped_rows [OF sh i rn]
  have a: "list_get (task_processing_time_data I) (int i) = Next (task_processing_time_data I ! i)"
    using rows(1) by (rule list_get_nat)
  have b: "list_get (task_processing_time_data I ! i) (rs ! i) = Next (proc_time_of I rs i)"
    using rows(2) r0 by (simp add: list_get_nonneg proc_time_of_def)
  have c: "list_get (weights I) (rs ! i) = Next (weights I ! nat (rs ! i))"
    using rows(3) r0 by (simp add: list_get_nonneg)
  have d: "list_get (weights I ! nat (rs ! i)) (int i) = Next (weight_of I rs i)"
    using rows(4) by (simp add: list_get_nat weight_of_def)
  show ?thesis
    using False trs stv lr ls i r0 r1
    by (simp add: task_finish_def py_getitem_int_seq a b c d incompatible_def finish_time_def)
qed

lemma finish_loop_from:
  assumes sh: "shaped I" and trs: "int_seq task_resources rs" and stv: "int_seq start_times sts"
    and lr: "length rs = nat (nb_tasks I)" and ls: "length sts = nat (nb_tasks I)"
  shows "k \<le> nat (nb_tasks I) \<Longrightarrow> length fts = nat (nb_tasks I) \<Longrightarrow>
     (\<forall>i<k. fts ! i = finish_time I rs sts i) \<Longrightarrow>
     finish_loop I task_resources start_times [k ..< nat (nb_tasks I)] fts =
       (if \<exists>i. k \<le> i \<and> i < nat (nb_tasks I) \<and> (invalid_resource I rs i \<or> incompatible I rs i)
        then Return Penalty
        else Next (map (finish_time I rs sts) [0 ..< nat (nb_tasks I)]))"
proof (induction "nat (nb_tasks I) - k" arbitrary: k fts)
  case 0
  then have "k = nat (nb_tasks I)" by simp
  with 0 have "fts = map (finish_time I rs sts) [0 ..< nat (nb_tasks I)]"
    by (auto simp: list_eq_iff_nth_eq)
  with \<open>k = nat (nb_tasks I)\<close> show ?case by simp
next
  case (Suc d)
  then have k: "k < nat (nb_tasks I)" by simp
  have step: "task_finish I task_resources start_times k =
     (if invalid_resource I rs k \<or> incompatible I rs k then Return Penalty
      else Next (finish_time I rs sts k))"
    by (rule task_finish_typed [OF sh trs stv lr ls k])
  show ?case
  proof (cases "invalid_resource I rs k \<or> incompatible I rs k")
    case True
    then show ?thesis using k step by (auto simp: upt_conv_Cons)
  next
    case False
    have ih: "finish_loop I task_resources start_times [Suc k ..< nat (nb_tasks I)]
        (fts[k := finish_time I rs sts k]) =
       (if \<exists>i. Suc k \<le> i \<and> i < nat (nb_tasks I) \<and> (invalid_resource I rs i \<or> incompatible I rs i)
        then Return Penalty
        else Next (map (finish_time I rs sts) [0 ..< nat (nb_tasks I)]))"
    proof (rule Suc.hyps(1))
      show "d = nat (nb_tasks I) - Suc k" using Suc.hyps(2) by simp
      show "Suc k \<le> nat (nb_tasks I)" using k by simp
      show "length (fts[k := finish_time I rs sts k]) = nat (nb_tasks I)"
        using Suc.prems(2) by simp
      show "\<forall>i<Suc k. fts[k := finish_time I rs sts k] ! i = finish_time I rs sts i"
        using Suc.prems(2,3) k by (auto simp: nth_list_update less_Suc_eq)
    qed
    have ex: "(\<exists>i. k \<le> i \<and> i < nat (nb_tasks I) \<and> (invalid_resource I rs i \<or> incompatible I rs i))
        = (\<exists>i. Suc k \<le> i \<and> i < nat (nb_tasks I) \<and> (invalid_resource I rs i \<or> incompatible I rs i))"
      using False by (metis Suc_leI le_neq_implies_less Suc_leD)
    show ?thesis
      using k step False ih by (simp add: upt_conv_Cons ex del: upt_Suc)
  qed
qed

lemma finish_loop_typed:
  assumes "shaped I" "int_seq task_resources rs" "int_seq start_times sts"
    "length rs = nat (nb_tasks I)" "length sts = nat (nb_tasks I)"
  shows "finish_loop I task_resources start_times [0 ..< nat (nb_tasks I)]
           (replicate (nat (nb_tasks I)) 0) =
       (if \<exists>i<nat (nb_tasks I). invalid_resource I rs i \<or> incompatible I rs i
        then Return Penalty
        else Next (map (finish_time I rs sts) [0 ..< nat (nb_tasks I)]))"
  using finish_loop_from [OF assms, of 0 "replicate (nat (nb_tasks I)) 0"] by simp

lemma succ_loop_typed:
  assumes stv: "int_seq start_times sts" and i: "i < length fts"
  shows "list_all (\<lambda>j. 0 \<le> j \<and> j < int (length sts)) succs \<Longrightarrow>
     succ_loop start_times fts i succs =
       (if \<exists>j\<in>set succs. fts ! i > sts ! nat j then Return Penalty else Next ())"
proof (induction succs)
  case Nil
  show ?case by simp
next
  case (Cons j succs)
  then have j: "0 \<le> j" "j < int (length sts)" by simp_all
  have g: "py_getitem start_times j = Next (PInt (sts ! nat j))"
    by (rule py_getitem_int_seq_nonneg [OF stv j])
  from Cons show ?case
    by (simp add: list_get_nat [OF i] g)
qed

lemma precedence_loop_typed:
  assumes sh: "shaped I" and stv: "int_seq start_times sts"
    and ls: "length sts = nat (nb_tasks I)" and lf: "length fts = nat (nb_tasks I)"
  shows "\<forall>i\<in>set js. i < nat (nb_tasks I) \<Longrightarrow>
     precedence_loop I start_times fts js =
       (if \<exists>i\<in>set js. \<exists>j\<in>set (successors I ! i). fts ! i > sts ! nat j
        then Return Penalty else Next ())"
proof (induction js)
  case Nil
  show ?case by simp
next
  case (Cons i js)
  then have i: "i < nat (nb_tasks I)" by simp
  then have il: "i < length (successors I)" using sh by (simp add: shaped_def)
  have "list_all (\<lambda>j. 0 \<le> j \<and> j < nb_tasks I) (successors I ! i)"
    using sh il by (simp add: shaped_def list_all_length)
  then have ok: "list_all (\<lambda>j. 0 \<le> j \<and> j < int (length sts)) (successors I ! i)"
    using ls i by (auto simp: list_all_iff)
  have s: "succ_loop start_times fts i (successors I ! i) =
       (if \<exists>j\<in>set (successors I ! i). fts ! i > sts ! nat j then Return Penalty else Next ())"
    using succ_loop_typed [OF stv _ ok, of i fts] i lf by simp
  from Cons show ?case
    by (simp add: list_get_nat [OF il] s)
qed

lemma collect_events_typed:
  assumes sh: "shaped I" and trs: "int_seq task_resources rs" and stv: "int_seq start_times sts"
    and lr: "length rs = nat (nb_tasks I)" and ls: "length sts = nat (nb_tasks I)"
    and lf: "length fts = nat (nb_tasks I)" and r: "r < nat (nb_resources I)"
  shows "\<forall>i\<in>set js. i < nat (nb_tasks I) \<Longrightarrow>
     collect_events I task_resources start_times fts r js events =
       Next (events @ concat (map (task_events I rs sts fts r) js))"
proof (induction js arbitrary: events)
  case Nil
  show ?case by simp
next
  case (Cons i js)
  then have i: "i < nat (nb_tasks I)" by simp
  note rows = shaped_rows [OF sh i r]
  have g1: "py_getitem task_resources (int i) = Next (PInt (rs ! i))"
    using trs i lr by (simp add: py_getitem_int_seq)
  have g2: "py_getitem start_times (int i) = Next (PInt (sts ! i))"
    using stv i ls by (simp add: py_getitem_int_seq)
  have g3: "list_get fts (int i) = Next (fts ! i)"
    using i lf by (simp add: list_get_nat)
  have g4: "list_get (weights I) (int r) = Next (weights I ! r)"
    using rows(3) by (rule list_get_nat)
  have g5: "list_get (weights I ! r) (int i) = Next (weights I ! r ! i)"
    using rows(4) by (rule list_get_nat)
  from Cons show ?case
    by (simp add: g1 g2 g3 g4 g5 task_events_def)
qed

lemma resource_events_int: "list_all (\<lambda>e. is_int (fst e)) (resource_events I rs sts fts r)"
  by (auto simp: resource_events_def task_events_def list_all_iff)

lemma sweep_no_raise:
  "r < length (capacity I) \<Longrightarrow>
   sweep I r u events = Return Penalty \<or> sweep I r u events = Next ()"
proof (induction events arbitrary: u)
  case Nil
  show ?case by simp
next
  case (Cons e events)
  obtain t d where e: "e = (t, d)" by (cases e)
  from Cons.IH [OF Cons.prems, of "u + d"] Cons.prems show ?case
    by (auto simp: e list_get_nat)
qed

lemma sweep_Penalty_iff:
  "r < length (capacity I) \<Longrightarrow>
   sweep I r u events = Return Penalty \<longleftrightarrow>
     (\<exists>k<length events. u + sum_list (map snd (take (Suc k) events)) > capacity I ! r)"
proof (induction events arbitrary: u)
  case Nil
  show ?case by simp
next
  case (Cons e events)
  obtain t d where e: "e = (t, d)" by (cases e)
  show ?case
  proof (cases "u + d > capacity I ! r")
    case True
    then have "sweep I r u (e # events) = Return Penalty"
      using Cons.prems by (simp add: e list_get_nat)
    moreover have "\<exists>k<length (e # events). u + sum_list (map snd (take (Suc k) (e # events))) > capacity I ! r"
      using True by (intro exI [of _ 0]) (simp add: e)
    ultimately show ?thesis by simp
  next
    case False
    then have "sweep I r u (e # events) = sweep I r (u + d) events"
      using Cons.prems by (simp add: e list_get_nat)
    moreover have "(\<exists>k<length (e # events). u + sum_list (map snd (take (Suc k) (e # events))) > capacity I ! r)
       \<longleftrightarrow> (\<exists>k<length events. (u + d) + sum_list (map snd (take (Suc k) events)) > capacity I ! r)"
      (is "?L \<longleftrightarrow> ?R")
    proof
      assume ?L
      then obtain k where k: "k < length (e # events)"
        "u + sum_list (map snd (take (Suc k) (e # events))) > capacity I ! r" by blast
      show ?R
      proof (cases k)
        case 0
        with k False show ?thesis by (simp add: e)
      next
        case (Suc k')
        with k show ?thesis by (intro exI [of _ k']) (simp add: e add.assoc)
      qed
    next
      assume ?R
      then obtain k where "k < length events"
        "(u + d) + sum_list (map snd (take (Suc k) events)) > capacity I ! r" by blast
      then show ?L by (intro exI [of _ "Suc k"]) (simp add: e add.assoc)
    qed
    ultimately show ?thesis using Cons.IH [OF Cons.prems, of "u + d"] by simp
  qed
qed

lemma capacity_loop_typed:
  assumes sh: "shaped I" and trs: "int_seq task_resources rs" and stv: "int_seq start_times sts"
    and lr: "length rs = nat (nb_tasks I)" and ls: "length sts = nat (nb_tasks I)"
    and lf: "length fts = nat (nb_tasks I)"
  shows "\<forall>r\<in>set rl. r < nat (nb_resources I) \<Longrightarrow>
     capacity_loop I task_resources start_times fts rl =
       (if \<exists>r\<in>set rl. sweep I r 0 (sorted_events I rs sts fts r) = Return Penalty
        then Return Penalty else Next ())"
proof (induction rl)
  case Nil
  show ?case by simp
next
  case (Cons r rl)
  then have r: "r < nat (nb_resources I)" by simp
  then have rc: "r < length (capacity I)" using sh by (simp add: shaped_def)
  have c: "collect_events I task_resources start_times fts r [0 ..< nat (nb_tasks I)] [] =
      Next (resource_events I rs sts fts r)"
    using collect_events_typed [OF sh trs stv lr ls lf r, of "[0 ..< nat (nb_tasks I)]" "[]"]
    by (simp add: resource_events_def)
  have s: "sort_events (resource_events I rs sts fts r) = Next (sorted_events I rs sts fts r)"
    by (simp add: sort_events_def resource_events_int sorted_events_def)
  from sweep_no_raise [OF rc, of 0 "sorted_events I rs sts fts r"] Cons show ?case
    by (auto simp: c s)
qed

lemma list_ex_upt: "list_ex P [0 ..< n] \<longleftrightarrow> (\<exists>i<n. P i)"
  by (auto simp: list_ex_iff)

lemma fold_max_Max: "fold max xs (x::int) = Max (set (x # xs))"
  using Max.set_eq_fold [of x xs] by simp


lemma check_schedule_typed:
  assumes sh: "shaped I" and trs: "int_seq task_resources rs" and stv: "int_seq start_times sts"
    and lr: "length rs = nat (nb_tasks I)" and ls: "length sts = nat (nb_tasks I)"
  shows "check_schedule I task_resources start_times =
     (if resource_violation I rs \<or> precedence_violation I rs sts \<or> sweep_violation I rs sts
      then Return Penalty
      else fbind (py_max (finish_times_of I rs sts)) (\<lambda>makespan. Return (Makespan makespan)))"
proof -
  have a: "finish_loop I task_resources start_times [0 ..< nat (nb_tasks I)]
           (replicate (nat (nb_tasks I)) 0) =
       (if resource_violation I rs then Return Penalty else Next (finish_times_of I rs sts))"
    using finish_loop_typed [OF sh trs stv lr ls]
    by (simp add: resource_violation_def finish_times_of_def list_ex_upt)
  have lf: "length (finish_times_of I rs sts) = nat (nb_tasks I)"
    by (simp add: finish_times_of_def)
  have b: "precedence_loop I start_times (finish_times_of I rs sts) [0 ..< nat (nb_tasks I)] =
       (if precedence_violation I rs sts then Return Penalty else Next ())"
    using precedence_loop_typed [OF sh stv ls lf, of "[0 ..< nat (nb_tasks I)]"]
    by (simp add: precedence_violation_def list_ex_upt list_ex_iff finish_times_of_def)
  have c: "capacity_loop I task_resources start_times (finish_times_of I rs sts)
              [0 ..< nat (nb_resources I)] =
       (if sweep_violation I rs sts then Return Penalty else Next ())"
    using capacity_loop_typed [OF sh trs stv lr ls lf, of "[0 ..< nat (nb_resources I)]"]
    by (simp add: sweep_violation_def list_ex_upt)
  show ?thesis
    by (simp add: check_schedule_def a b c)
qed

lemma schedule_ofE:
  assumes "schedule_of solution rs sts"
  obtains task_resources start_times where
    "is_list_or_tuple solution" "seq_items solution = Some [task_resources, start_times]"
    "int_seq task_resources rs" "int_seq start_times sts"
  using assms
  by (auto simp: schedule_of_def split: option.splits list.splits)

lemma evaluate_body_pair:
  assumes "is_list_or_tuple solution" "seq_items solution = Some [task_resources, start_times]"
    "int_seq task_resources rs" "int_seq start_times sts"
  shows "evaluate_body I solution =
     (if int (length rs) \<noteq> nb_tasks I \<or> int (length sts) \<noteq> nb_tasks I then Return Penalty
      else check_schedule I task_resources start_times)"
  using assms by (simp add: evaluate_body_def py_len_int_seq)

lemma evaluate_typed:
  assumes sh: "shaped I" and sol: "schedule_of solution rs sts"
  shows "evaluate_solution I solution =
     (if int (length rs) \<noteq> nb_tasks I \<or> int (length sts) \<noteq> nb_tasks I then Inr Penalty
      else if resource_violation I rs \<or> precedence_violation I rs sts \<or> sweep_violation I rs sts
      then Inr Penalty
      else run (fbind (py_max (finish_times_of I rs sts)) (\<lambda>makespan. Return (Makespan makespan))))"
proof -
  from sol obtain task_resources start_times where
    p: "is_list_or_tuple solution" "seq_items solution = Some [task_resources, start_times]"
    "int_seq task_resources rs" "int_seq start_times sts"
    by (rule schedule_ofE)
  show ?thesis
  proof (cases "int (length rs) \<noteq> nb_tasks I \<or> int (length sts) \<noteq> nb_tasks I")
    case True
    then show ?thesis
      by (simp add: evaluate_solution_def evaluate_body_pair [OF p])
  next
    case False
    then have lr: "length rs = nat (nb_tasks I)" and ls: "length sts = nat (nb_tasks I)"
      by auto
    from False show ?thesis
      by (simp add: evaluate_solution_def evaluate_body_pair [OF p]
          check_schedule_typed [OF sh p(3,4) lr ls])
  qed
qed

lemma task_finish_Next:
  assumes trs: "int_seq task_resources rs" and stv: "int_seq start_times sts"
    and i: "i < length rs" "i < length sts"
    and n: "task_finish I task_resources start_times i = Next ft"
  shows "ft = sts ! i + task_processing_time_data I ! i ! nat (rs ! i)"
  using n i
  by (simp add: task_finish_def py_getitem_int_seq [OF trs] py_getitem_int_seq [OF stv]
      list_get_def split: if_splits)

lemma finish_loop_Next:
  assumes trs: "int_seq task_resources rs" and stv: "int_seq start_times sts"
    and lr: "length rs = n" and ls: "length sts = n"
  shows "k \<le> n \<Longrightarrow> length fts = n \<Longrightarrow>
     (\<forall>i<k. fts ! i = sts ! i + task_processing_time_data I ! i ! nat (rs ! i)) \<Longrightarrow>
     finish_loop I task_resources start_times [k ..< n] fts = Next fts' \<Longrightarrow>
     fts' = map (\<lambda>i. sts ! i + task_processing_time_data I ! i ! nat (rs ! i)) [0 ..< n]"
proof (induction "n - k" arbitrary: k fts)
  case 0
  then have kn: "k = n" by simp
  with "0.prems"(4) have e: "fts' = fts" by simp
  show ?case
    unfolding e using "0.prems"(2,3) kn by (simp add: list_eq_iff_nth_eq)
next
  case (Suc d)
  then have k: "k < n" by simp
  from Suc.prems(4) k obtain ft where
    ft: "task_finish I task_resources start_times k = Next ft"
    and rest: "finish_loop I task_resources start_times [Suc k ..< n] (fts[k := ft]) = Next fts'"
    by (cases "task_finish I task_resources start_times k") (auto simp: upt_conv_Cons)
  have v: "ft = sts ! k + task_processing_time_data I ! k ! nat (rs ! k)"
    using task_finish_Next [OF trs stv _ _ ft] k lr ls by simp
  show ?case
  proof (rule Suc.hyps(1) [OF _ _ _ _ rest])
    show "d = n - Suc k" using Suc.hyps(2) by simp
    show "Suc k \<le> n" using k by simp
    show "length (fts[k := ft]) = n" using Suc.prems(2) by simp
    show "\<forall>i<Suc k. fts[k := ft] ! i = sts ! i + task_processing_time_data I ! i ! nat (rs ! i)"
      using Suc.prems(2,3) k v by (auto simp: nth_list_update less_Suc_eq)
  qed
qed

lemma py_max_map:
  "0 < n \<Longrightarrow> py_max (map f [0 ..< n]) = Next (Max (f ` {..< n}))"
proof -
  assume "0 < n"
  then obtain x xs where c: "map f [0 ..< n] = x # xs" by (cases "map f [0 ..< n]") auto
  have "set (map f [0 ..< n]) = f ` {..< n}" by auto
  then show ?thesis by (simp add: c fold_max_Max)
qed

subsection \<open>The makespan of a schedule that passes\<close>

text \<open>
  C3. A candidate of two int sequences that passes the shape check and runs through the
  three loops without a return is scored with the maximum over all tasks of
  \<open>start_times[i] + processing_time[i][task_resources[i]]\<close>, when there is a task.
\<close>

theorem makespan_of_passing_schedule:
  assumes "is_list_or_tuple solution"
    and "seq_items solution = Some [task_resources, start_times]"
    and "int_seq task_resources rs" and "int_seq start_times sts"
    and "int (length rs) = nb_tasks I" and "int (length sts) = nb_tasks I"
    and "finish_loop I task_resources start_times [0 ..< nat (nb_tasks I)]
           (replicate (nat (nb_tasks I)) 0) = Next finish_times"
    and "precedence_loop I start_times finish_times [0 ..< nat (nb_tasks I)] = Next ()"
    and "capacity_loop I task_resources start_times finish_times
           [0 ..< nat (nb_resources I)] = Next ()"
    and "0 < nb_tasks I"
  shows "evaluate_solution I solution =
     Inr (Makespan (Max ((\<lambda>i. sts ! i + task_processing_time_data I ! i ! nat (rs ! i))
                           ` {..< nat (nb_tasks I)})))"
proof -
  have lr: "length rs = nat (nb_tasks I)" and ls: "length sts = nat (nb_tasks I)"
    using assms(5,6) by auto
  have f: "finish_times =
      map (\<lambda>i. sts ! i + task_processing_time_data I ! i ! nat (rs ! i)) [0 ..< nat (nb_tasks I)]"
    using finish_loop_Next [OF assms(3,4) lr ls, of 0 "replicate (nat (nb_tasks I)) 0" I finish_times]
      assms(7) by simp
  have m: "py_max finish_times =
      Next (Max ((\<lambda>i. sts ! i + task_processing_time_data I ! i ! nat (rs ! i)) ` {..< nat (nb_tasks I)}))"
    unfolding f using assms(10) by (intro py_max_map) simp
  have "check_schedule I task_resources start_times =
      Return (Makespan (Max ((\<lambda>i. sts ! i + task_processing_time_data I ! i ! nat (rs ! i))
                           ` {..< nat (nb_tasks I)})))"
    by (simp add: check_schedule_def assms(7,8,9) m)
  then show ?thesis
    using assms(5,6)
    by (simp add: evaluate_solution_def evaluate_body_pair [OF assms(1,2,3,4)])
qed

theorem makespan_of_passing_schedule_witness:
  "evaluate_solution scenario2 (PTuple [PList [PInt 0, PInt 0], PList [PInt 0, PInt 3]]) =
     Inr (Makespan 5)"
proof -
  let ?trs = "PList [PInt 0, PInt 0]" and ?stv = "PList [PInt 0, PInt 3]"
  have h1: "is_list_or_tuple (PTuple [?trs, ?stv])" by simp
  have h2: "seq_items (PTuple [?trs, ?stv]) = Some [?trs, ?stv]" by simp
  have h3: "int_seq ?trs [0, 0]" by (simp add: int_seq_def)
  have h4: "int_seq ?stv [0, 3]" by (simp add: int_seq_def)
  have h5: "int (length [0, 0 :: int]) = nb_tasks scenario2" by code_simp
  have h6: "int (length [0, 3 :: int]) = nb_tasks scenario2" by code_simp
  have h7: "finish_loop scenario2 ?trs ?stv [0 ..< nat (nb_tasks scenario2)]
           (replicate (nat (nb_tasks scenario2)) 0) = Next [3, 5]" by code_simp
  have h8: "precedence_loop scenario2 ?stv [3, 5] [0 ..< nat (nb_tasks scenario2)] = Next ()"
    by code_simp
  have h9: "capacity_loop scenario2 ?trs ?stv [3, 5] [0 ..< nat (nb_resources scenario2)] = Next ()"
    by code_simp
  have h10: "0 < nb_tasks scenario2" by code_simp
  have n: "nat (nb_tasks scenario2) = Suc (Suc 0)" by code_simp
  have p: "task_processing_time_data scenario2 = [[3], [2]]" by code_simp
  show ?thesis
    using makespan_of_passing_schedule [OF h1 h2 h3 h4 h5 h6 h7 h8 h9 h10]
    by (simp add: n p lessThan_Suc)
qed

subsection \<open>Violations and the penalty\<close>

lemma schedule_ofI:
  "is_list_or_tuple solution \<Longrightarrow> seq_items solution = Some [task_resources, start_times] \<Longrightarrow>
   int_seq task_resources rs \<Longrightarrow> int_seq start_times sts \<Longrightarrow> schedule_of solution rs sts"
  by (simp add: schedule_of_def)

lemma resource_violationI:
  "i < nat (nb_tasks I) \<Longrightarrow> invalid_resource I rs i \<or> incompatible I rs i \<Longrightarrow>
   resource_violation I rs"
  by (auto simp: resource_violation_def list_ex_upt)

lemma precedence_violationI:
  "i < nat (nb_tasks I) \<Longrightarrow> j \<in> set (successors I ! i) \<Longrightarrow>
   finish_time I rs sts i > sts ! nat j \<Longrightarrow> precedence_violation I rs sts"
  by (auto simp: precedence_violation_def list_ex_upt list_ex_iff)

lemma sweep_violationI:
  "r < nat (nb_resources I) \<Longrightarrow>
   sweep I r 0 (sorted_events I rs sts (finish_times_of I rs sts) r) = Return Penalty \<Longrightarrow>
   sweep_violation I rs sts"
  by (auto simp: sweep_violation_def list_ex_upt)

lemma evaluate_violation:
  assumes "shaped I" and "schedule_of solution rs sts"
    and "resource_violation I rs \<or> precedence_violation I rs sts \<or> sweep_violation I rs sts"
  shows "evaluate_solution I solution = Inr Penalty"
  using assms(3) by (simp add: evaluate_typed [OF assms(1,2)])

text \<open>
  C5. For a task \<open>i\<close> with successor \<open>j\<close>: when \<open>finish_times[i] > start_times[j]\<close>
  the evaluator returns the penalty; when \<open>finish_times[i] == start_times[j]\<close> the
  test of the pair does not return and the loop goes on with the remaining successors;
  and the whole precedence loop falls through when no pair has
  \<open>finish_times[i] > start_times[j]\<close>.
\<close>

theorem precedence_check:
  assumes "shaped I"
    and "is_list_or_tuple solution"
    and "seq_items solution = Some [task_resources, start_times]"
    and "int_seq task_resources rs" and "int_seq start_times sts"
    and "int (length rs) = nb_tasks I" and "int (length sts) = nb_tasks I"
    and "i < nat (nb_tasks I)" and "j \<in> set (successors I ! i)"
  shows "(sts ! i + task_processing_time_data I ! i ! nat (rs ! i) > sts ! nat j \<longrightarrow>
            evaluate_solution I solution = Inr Penalty) \<and>
         (sts ! i + task_processing_time_data I ! i ! nat (rs ! i) = sts ! nat j \<longrightarrow>
            succ_loop start_times (finish_times_of I rs sts) i (j # rest) =
            succ_loop start_times (finish_times_of I rs sts) i rest) \<and>
         (\<not> precedence_violation I rs sts \<longrightarrow>
            precedence_loop I start_times (finish_times_of I rs sts)
              [0 ..< nat (nb_tasks I)] = Next ())"
proof (intro conjI impI)
  have ls: "length sts = nat (nb_tasks I)" using assms(7) by auto
  have lf: "length (finish_times_of I rs sts) = nat (nb_tasks I)"
    by (simp add: finish_times_of_def)
  have fi: "finish_times_of I rs sts ! i = sts ! i + task_processing_time_data I ! i ! nat (rs ! i)"
    using assms(8) by (simp add: finish_times_of_def finish_time_def proc_time_of_def)
  have il: "i < length (successors I)" using assms(1,8) by (simp add: shaped_def)
  have "list_all (\<lambda>j. 0 \<le> j \<and> j < nb_tasks I) (successors I ! i)"
    using assms(1) il by (simp add: shaped_def list_all_length)
  with assms(9) have j: "0 \<le> j" "j < int (length sts)"
    using ls by (auto simp: list_all_iff)
  {
    assume "sts ! i + task_processing_time_data I ! i ! nat (rs ! i) > sts ! nat j"
    then have "precedence_violation I rs sts"
      using assms(8,9)
      by (intro precedence_violationI [of i _ j]) (simp_all add: finish_time_def proc_time_of_def)
    then show "evaluate_solution I solution = Inr Penalty"
      using evaluate_violation [OF assms(1) schedule_ofI [OF assms(2,3,4,5)]] by simp
  }
  {
    assume "sts ! i + task_processing_time_data I ! i ! nat (rs ! i) = sts ! nat j"
    then show "succ_loop start_times (finish_times_of I rs sts) i (j # rest) =
            succ_loop start_times (finish_times_of I rs sts) i rest"
      using assms(8) lf
      by (simp add: list_get_nat py_getitem_int_seq_nonneg [OF assms(5) j] fi)
  }
  {
    assume "\<not> precedence_violation I rs sts"
    then show "precedence_loop I start_times (finish_times_of I rs sts)
              [0 ..< nat (nb_tasks I)] = Next ()"
      using precedence_loop_typed [OF assms(1,5) ls lf, of "[0 ..< nat (nb_tasks I)]"]
      by (simp add: precedence_violation_def list_ex_upt list_ex_iff finish_times_of_def)
  }
qed

theorem precedence_check_witness:
  "evaluate_solution scenario2 (PTuple [PList [PInt 0, PInt 0], PList [PInt 0, PInt 2]]) = Inr Penalty \<and>
   succ_loop (PList [PInt 0, PInt 3]) [3, 5] 0 [1] = succ_loop (PList [PInt 0, PInt 3]) [3, 5] 0 [] \<and>
   precedence_loop scenario2 (PList [PInt 0, PInt 3]) [3, 5] [0 ..< 2] = Next ()"
proof -
  let ?trs = "PList [PInt 0, PInt 0]" and ?late = "PList [PInt 0, PInt 2]"
    and ?tie = "PList [PInt 0, PInt 3]"
  have sh: "shaped scenario2" by code_simp
  have h3: "int_seq ?trs [0, 0]" by (simp add: int_seq_def)
  have l4: "int_seq ?late [0, 2]" by (simp add: int_seq_def)
  have t4: "int_seq ?tie [0, 3]" by (simp add: int_seq_def)
  have n: "int (length [0, 0 :: int]) = nb_tasks scenario2"
    "int (length [0, 2 :: int]) = nb_tasks scenario2"
    "int (length [0, 3 :: int]) = nb_tasks scenario2" by code_simp+
  have i: "0 < nat (nb_tasks scenario2)" by code_simp
  have j: "1 \<in> set (successors scenario2 ! 0)" by code_simp
  have f: "finish_times_of scenario2 [0, 0] [0, 3] = [3, 5]" by code_simp
  have nv: "\<not> precedence_violation scenario2 [0, 0] [0, 3]" by code_simp
  have p: "task_processing_time_data scenario2 = [[3], [2]]" "nat (nb_tasks scenario2) = 2"
    by code_simp+
  note late = precedence_check [OF sh _ _ h3 l4 n(1,2) i j, of "PTuple [?trs, ?late]" "[]"]
  note tie = precedence_check [OF sh _ _ h3 t4 n(1,3) i j, of "PTuple [?trs, ?tie]" "[]"]
  show ?thesis
    using late tie nv by (simp add: p f)
qed

text \<open>
  C6. For a task \<open>i\<close> of a well-shaped candidate with \<open>r = task_resources[i]\<close>: the
  evaluator returns the penalty when \<open>r\<close> is outside \<open>[0, nb_resources)\<close>, and when
  \<open>processing_time[i][r]\<close> and \<open>weights[r][i]\<close> are both zero; with any other pair the
  body of the first loop does not return for task \<open>i\<close> and gives its finish time.
\<close>

theorem resource_validity_check:
  assumes "shaped I"
    and "is_list_or_tuple solution"
    and "seq_items solution = Some [task_resources, start_times]"
    and "int_seq task_resources rs" and "int_seq start_times sts"
    and "int (length rs) = nb_tasks I" and "int (length sts) = nb_tasks I"
    and "i < nat (nb_tasks I)"
  shows "(rs ! i < 0 \<or> nb_resources I \<le> rs ! i \<longrightarrow>
            evaluate_solution I solution = Inr Penalty) \<and>
         (0 \<le> rs ! i \<and> rs ! i < nb_resources I \<and>
          task_processing_time_data I ! i ! nat (rs ! i) = 0 \<and>
          weights I ! nat (rs ! i) ! i = 0 \<longrightarrow>
            evaluate_solution I solution = Inr Penalty) \<and>
         (0 \<le> rs ! i \<and> rs ! i < nb_resources I \<and>
          \<not> (task_processing_time_data I ! i ! nat (rs ! i) = 0 \<and>
             weights I ! nat (rs ! i) ! i = 0) \<longrightarrow>
            task_finish I task_resources start_times i =
              Next (sts ! i + task_processing_time_data I ! i ! nat (rs ! i)))"
proof (intro conjI impI)
  have lr: "length rs = nat (nb_tasks I)" and ls: "length sts = nat (nb_tasks I)"
    using assms(6,7) by auto
  note sol = schedule_ofI [OF assms(2,3,4,5)]
  note tf = task_finish_typed [OF assms(1,4,5) lr ls assms(8)]
  {
    assume "rs ! i < 0 \<or> nb_resources I \<le> rs ! i"
    then have "resource_violation I rs"
      using assms(8) by (intro resource_violationI [of i]) (simp_all add: invalid_resource_def)
    then show "evaluate_solution I solution = Inr Penalty"
      using evaluate_violation [OF assms(1) sol] by simp
  }
  {
    assume "0 \<le> rs ! i \<and> rs ! i < nb_resources I \<and>
          task_processing_time_data I ! i ! nat (rs ! i) = 0 \<and> weights I ! nat (rs ! i) ! i = 0"
    then have "resource_violation I rs"
      using assms(8)
      by (intro resource_violationI [of i])
        (simp_all add: incompatible_def proc_time_of_def weight_of_def)
    then show "evaluate_solution I solution = Inr Penalty"
      using evaluate_violation [OF assms(1) sol] by simp
  }
  {
    assume "0 \<le> rs ! i \<and> rs ! i < nb_resources I \<and>
          \<not> (task_processing_time_data I ! i ! nat (rs ! i) = 0 \<and> weights I ! nat (rs ! i) ! i = 0)"
    then show "task_finish I task_resources start_times i =
              Next (sts ! i + task_processing_time_data I ! i ! nat (rs ! i))"
      using tf
      by (simp add: invalid_resource_def incompatible_def proc_time_of_def weight_of_def
          finish_time_def)
  }
qed

theorem resource_validity_check_witness:
  "evaluate_solution scenario_flex (PTuple [PList [PInt 2, PInt 0], PList [PInt 0, PInt 0]]) = Inr Penalty \<and>
   evaluate_solution scenario_flex (PTuple [PList [PInt 1, PInt 0], PList [PInt 0, PInt 0]]) = Inr Penalty \<and>
   task_finish scenario_flex (PList [PInt 0, PInt 1]) (PList [PInt 0, PInt 0]) 0 = Next 3"
proof -
  let ?stv = "PList [PInt 0, PInt 0]"
  have sh: "shaped scenario_flex" by code_simp
  have a: "int_seq (PList [PInt 2, PInt 0]) [2, 0]" "int_seq (PList [PInt 1, PInt 0]) [1, 0]"
    "int_seq (PList [PInt 0, PInt 1]) [0, 1]" "int_seq ?stv [0, 0]"
    by (simp_all add: int_seq_def)
  have n: "int (length [2, 0 :: int]) = nb_tasks scenario_flex"
    "int (length [1, 0 :: int]) = nb_tasks scenario_flex"
    "int (length [0, 1 :: int]) = nb_tasks scenario_flex"
    "int (length [0, 0 :: int]) = nb_tasks scenario_flex" by code_simp+
  have i: "0 < nat (nb_tasks scenario_flex)" by code_simp
  have p: "task_processing_time_data scenario_flex = [[3, 0], [2, 2]]"
    "weights scenario_flex = [[2, 3], [0, 1]]" "nb_resources scenario_flex = 2"
    by code_simp+
  note outside = resource_validity_check [OF sh _ _ a(1) a(4) n(1) n(4) i,
      of "PTuple [PList [PInt 2, PInt 0], ?stv]"]
  note both_zero = resource_validity_check [OF sh _ _ a(2) a(4) n(2) n(4) i,
      of "PTuple [PList [PInt 1, PInt 0], ?stv]"]
  note compatible = resource_validity_check [OF sh _ _ a(3) a(4) n(3) n(4) i,
      of "PTuple [PList [PInt 0, PInt 1], ?stv]"]
  show ?thesis
    using outside both_zero compatible by (simp add: p)
qed

text \<open>
  C8. Every return of the evaluator on a violation gives the one value \<open>penalty\<close>, the
  float \<open>1e9\<close>: a candidate that is not a list or tuple of length two, a component of
  the wrong length, a resource index out of range, an incompatible resource, a
  precedence violation and an overflow found by the sweep.
\<close>

theorem single_penalty:
  "score_value Penalty = 1000000000 \<and>
   (\<not> (is_list_or_tuple solution \<and> py_len solution = Next 2) \<longrightarrow>
      evaluate_solution I solution = Inr Penalty) \<and>
   (is_list_or_tuple solution \<and> seq_items solution = Some [a, b] \<and>
    py_len a = Next n1 \<and> n1 \<noteq> nb_tasks I \<longrightarrow>
      evaluate_solution I solution = Inr Penalty) \<and>
   (is_list_or_tuple solution \<and> seq_items solution = Some [a, b] \<and>
    py_len a = Next (nb_tasks I) \<and> py_len b = Next n2 \<and> n2 \<noteq> nb_tasks I \<longrightarrow>
      evaluate_solution I solution = Inr Penalty) \<and>
   (shaped I \<and> schedule_of solution rs sts \<and>
    int (length rs) = nb_tasks I \<and> int (length sts) = nb_tasks I \<and> i < nat (nb_tasks I) \<and>
    (rs ! i < 0 \<or> nb_resources I \<le> rs ! i) \<longrightarrow>
      evaluate_solution I solution = Inr Penalty) \<and>
   (shaped I \<and> schedule_of solution rs sts \<and>
    int (length rs) = nb_tasks I \<and> int (length sts) = nb_tasks I \<and> i < nat (nb_tasks I) \<and>
    task_processing_time_data I ! i ! nat (rs ! i) = 0 \<and> weights I ! nat (rs ! i) ! i = 0 \<longrightarrow>
      evaluate_solution I solution = Inr Penalty) \<and>
   (shaped I \<and> schedule_of solution rs sts \<and>
    int (length rs) = nb_tasks I \<and> int (length sts) = nb_tasks I \<and> i < nat (nb_tasks I) \<and>
    j \<in> set (successors I ! i) \<and>
    sts ! i + task_processing_time_data I ! i ! nat (rs ! i) > sts ! nat j \<longrightarrow>
      evaluate_solution I solution = Inr Penalty) \<and>
   (shaped I \<and> schedule_of solution rs sts \<and>
    int (length rs) = nb_tasks I \<and> int (length sts) = nb_tasks I \<and> r < nat (nb_resources I) \<and>
    sweep I r 0 (sorted_events I rs sts (finish_times_of I rs sts) r) = Return Penalty \<longrightarrow>
      evaluate_solution I solution = Inr Penalty)"
proof (intro conjI impI)
  show "score_value Penalty = 1000000000" by simp
next
  assume "\<not> (is_list_or_tuple solution \<and> py_len solution = Next 2)"
  then show "evaluate_solution I solution = Inr Penalty"
    by (auto simp: evaluate_solution_def evaluate_body_def py_len_def
        split: option.splits list.splits)
next
  assume "is_list_or_tuple solution \<and> seq_items solution = Some [a, b] \<and>
    py_len a = Next n1 \<and> n1 \<noteq> nb_tasks I"
  then show "evaluate_solution I solution = Inr Penalty"
    by (simp add: evaluate_solution_def evaluate_body_def)
next
  assume "is_list_or_tuple solution \<and> seq_items solution = Some [a, b] \<and>
    py_len a = Next (nb_tasks I) \<and> py_len b = Next n2 \<and> n2 \<noteq> nb_tasks I"
  then show "evaluate_solution I solution = Inr Penalty"
    by (simp add: evaluate_solution_def evaluate_body_def)
next
  assume h: "shaped I \<and> schedule_of solution rs sts \<and>
    int (length rs) = nb_tasks I \<and> int (length sts) = nb_tasks I \<and> i < nat (nb_tasks I) \<and>
    (rs ! i < 0 \<or> nb_resources I \<le> rs ! i)"
  then have "resource_violation I rs"
    by (intro resource_violationI [of i]) (simp_all add: invalid_resource_def)
  with h show "evaluate_solution I solution = Inr Penalty"
    using evaluate_violation [of I solution rs sts] by simp
next
  assume h: "shaped I \<and> schedule_of solution rs sts \<and>
    int (length rs) = nb_tasks I \<and> int (length sts) = nb_tasks I \<and> i < nat (nb_tasks I) \<and>
    task_processing_time_data I ! i ! nat (rs ! i) = 0 \<and> weights I ! nat (rs ! i) ! i = 0"
  then have "resource_violation I rs"
    by (intro resource_violationI [of i])
      (simp_all add: incompatible_def proc_time_of_def weight_of_def)
  with h show "evaluate_solution I solution = Inr Penalty"
    using evaluate_violation [of I solution rs sts] by simp
next
  assume h: "shaped I \<and> schedule_of solution rs sts \<and>
    int (length rs) = nb_tasks I \<and> int (length sts) = nb_tasks I \<and> i < nat (nb_tasks I) \<and>
    j \<in> set (successors I ! i) \<and>
    sts ! i + task_processing_time_data I ! i ! nat (rs ! i) > sts ! nat j"
  then have "precedence_violation I rs sts"
    by (intro precedence_violationI [of i _ j]) (simp_all add: finish_time_def proc_time_of_def)
  with h show "evaluate_solution I solution = Inr Penalty"
    using evaluate_violation [of I solution rs sts] by simp
next
  assume h: "shaped I \<and> schedule_of solution rs sts \<and>
    int (length rs) = nb_tasks I \<and> int (length sts) = nb_tasks I \<and> r < nat (nb_resources I) \<and>
    sweep I r 0 (sorted_events I rs sts (finish_times_of I rs sts) r) = Return Penalty"
  then have "sweep_violation I rs sts"
    by (intro sweep_violationI [of r]) simp_all
  with h show "evaluate_solution I solution = Inr Penalty"
    using evaluate_violation [of I solution rs sts] by simp
qed

theorem single_penalty_witness:
  "evaluate_solution scenario_flex (PStr ''ab'') = Inr Penalty \<and>
   evaluate_solution scenario_flex (PList [PList [PInt 0], PNone]) = Inr Penalty \<and>
   evaluate_solution scenario_flex (PList [PList [PInt 0, PInt 0], PTuple []]) = Inr Penalty \<and>
   evaluate_solution scenario_flex (PTuple [PList [PInt 2, PInt 0], PList [PInt 0, PInt 0]]) = Inr Penalty \<and>
   evaluate_solution scenario_flex (PTuple [PList [PInt 1, PInt 0], PList [PInt 0, PInt 0]]) = Inr Penalty \<and>
   evaluate_solution scenario2 (PTuple [PList [PInt 0, PInt 0], PList [PInt 0, PInt 2]]) = Inr Penalty \<and>
   evaluate_solution scenario3 (PTuple [PList [PInt 0, PInt 0], PList [PInt 0, PInt 1]]) = Inr Penalty"
proof -
  have sh: "shaped scenario_flex" "shaped scenario2" "shaped scenario3" by code_simp+
  have n: "nb_tasks scenario_flex = 2" "nb_resources scenario_flex = 2"
    "nb_tasks scenario2 = 2" "nb_tasks scenario3 = 2" "nb_resources scenario3 = 1"
    "task_processing_time_data scenario_flex = [[3, 0], [2, 2]]"
    "weights scenario_flex = [[2, 3], [0, 1]]"
    "task_processing_time_data scenario2 = [[3], [2]]"
    "successors scenario2 = [[1], []]"
    by code_simp+
  have sw: "sweep scenario3 0 0
      (sorted_events scenario3 [0, 0] [0, 1] (finish_times_of scenario3 [0, 0] [0, 1]) 0) =
      Return Penalty" by code_simp
  have c1: "evaluate_solution scenario_flex (PStr ''ab'') = Inr Penalty"
    using single_penalty [of "PStr ''ab''" scenario_flex] by simp
  have c2: "evaluate_solution scenario_flex (PList [PList [PInt 0], PNone]) = Inr Penalty"
    using single_penalty [of "PList [PList [PInt 0], PNone]" scenario_flex
        "PList [PInt 0]" PNone 1]
    by (simp add: py_len_def n)
  have c3: "evaluate_solution scenario_flex (PList [PList [PInt 0, PInt 0], PTuple []]) = Inr Penalty"
    using single_penalty [of "PList [PList [PInt 0, PInt 0], PTuple []]" scenario_flex
        "PList [PInt 0, PInt 0]" "PTuple []" _ 0]
    by (simp add: py_len_def n)
  have c4: "evaluate_solution scenario_flex (PTuple [PList [PInt 2, PInt 0], PList [PInt 0, PInt 0]]) = Inr Penalty"
    using single_penalty [of "PTuple [PList [PInt 2, PInt 0], PList [PInt 0, PInt 0]]" scenario_flex
        _ _ _ _ "[2, 0]" "[0, 0]" 0] sh
    by (simp add: n schedule_of_def int_seq_def)
  have c5: "evaluate_solution scenario_flex (PTuple [PList [PInt 1, PInt 0], PList [PInt 0, PInt 0]]) = Inr Penalty"
    using single_penalty [of "PTuple [PList [PInt 1, PInt 0], PList [PInt 0, PInt 0]]" scenario_flex
        _ _ _ _ "[1, 0]" "[0, 0]" 0] sh
    by (simp add: n schedule_of_def int_seq_def)
  have c6: "evaluate_solution scenario2 (PTuple [PList [PInt 0, PInt 0], PList [PInt 0, PInt 2]]) = Inr Penalty"
    using single_penalty [of "PTuple [PList [PInt 0, PInt 0], PList [PInt 0, PInt 2]]" scenario2
        _ _ _ _ "[0, 0]" "[0, 2]" 0 1] sh
    by (simp add: n schedule_of_def int_seq_def)
  have c7: "evaluate_solution scenario3 (PTuple [PList [PInt 0, PInt 0], PList [PInt 0, PInt 1]]) = Inr Penalty"
    using single_penalty [of "PTuple [PList [PInt 0, PInt 0], PList [PInt 0, PInt 1]]" scenario3
        _ _ _ _ "[0, 0]" "[0, 1]" _ _ 0] sh sw
    by (simp add: n schedule_of_def int_seq_def)
  from c1 c2 c3 c4 c5 c6 c7 show ?thesis by simp
qed

subsection \<open>Sorting keeps sums; a sorted list is cut at a time by a prefix\<close>

lemma sum_list_insort_key:
  "sum_list (map g (insort_key f x xs)) = (g x :: int) + sum_list (map g xs)"
  by (induction xs) auto

lemma sum_list_sort_key:
  "sum_list (map g (sort_key f xs)) = (sum_list (map g xs) :: int)"
  by (induction xs) (auto simp: sum_list_insort_key)

lemma filter_le_sorted_take:
  "sorted (map f xs) \<Longrightarrow>
   filter (\<lambda>x. f x \<le> (t::int)) xs = take (length (filter (\<lambda>x. f x \<le> t) xs)) xs"
proof (induction xs)
  case Nil
  show ?case by simp
next
  case (Cons x xs)
  then have later: "\<forall>y\<in>set xs. f x \<le> f y" and s: "sorted (map f xs)" by auto
  show ?case
  proof (cases "f x \<le> t")
    case True
    with Cons.IH [OF s] show ?thesis by simp
  next
    case False
    with later have "\<forall>y\<in>set xs. \<not> f y \<le> t" by auto
    then have "filter (\<lambda>x. f x \<le> t) xs = []" by (simp add: filter_empty_conv)
    with False show ?thesis by simp
  qed
qed

lemma sweep_passes_small:
  "r < length (capacity I) \<Longrightarrow>
   u + sum_list (map (\<lambda>e. max 0 (snd e)) events) \<le> capacity I ! r \<Longrightarrow>
   sweep I r u events = Next ()"
proof (induction events arbitrary: u)
  case Nil
  show ?case by simp
next
  case (Cons e events)
  obtain t d where e: "e = (t, d)" by (cases e)
  have nn: "0 \<le> sum_list (map (\<lambda>e. max 0 (snd e)) events)"
    by (rule sum_list_nonneg) auto
  from Cons.prems(2) nn have here: "\<not> u + d > capacity I ! r"
    by (simp add: e)
  from Cons.prems(2) have "(u + d) + sum_list (map (\<lambda>e. max 0 (snd e)) events) \<le> capacity I ! r"
    by (simp add: e)
  from Cons.IH [OF Cons.prems(1) this] here Cons.prems(1) show ?case
    by (simp add: e list_get_nat)
qed

subsection \<open>Events at one timestamp\<close>

text \<open>
  C7. Two tasks on the one resource of capacity 4, with weights 2 and 2, task 1 starting
  exactly when task 0 finishes: when the precedence loop passes, the evaluator returns
  the larger finish time, whatever the processing times and the first start time are.
\<close>

theorem scenario4_feasible:
  assumes "precedence_loop (scenario4 p0 p1 succs) (PList [PInt s0, PInt (s0 + p0)])
             [s0 + p0, s0 + p0 + p1] [0 ..< 2] = Next ()"
  shows "evaluate_solution (scenario4 p0 p1 succs)
           (PTuple [PList [PInt 0, PInt 0], PList [PInt s0, PInt (s0 + p0)]]) =
         Inr (Makespan (max (s0 + p0) (s0 + p0 + p1)))"
proof -
  let ?I = "scenario4 p0 p1 succs"
  let ?trs = "PList [PInt 0, PInt 0]" and ?stv = "PList [PInt s0, PInt (s0 + p0)]"
  let ?fts = "[s0 + p0, s0 + p0 + p1]"
  let ?evs = "[(PInt s0, 2), (PInt (s0 + p0), - 2), (PInt (s0 + p0), 2), (PInt (s0 + p0 + p1), - 2)] :: event list"
  have two: "[0 ..< 2] = [0, Suc 0]" by (simp add: upt_conv_Cons)
  have f: "finish_loop ?I ?trs ?stv [0 ..< 2] (replicate 2 0) = Next ?fts"
    by (simp add: two scenario4_def task_finish_def py_getitem_def list_get_def
        numeral_2_eq_2)
  have c: "collect_events ?I ?trs ?stv ?fts 0 [0 ..< 2] [] = Next ?evs"
    by (simp add: two scenario4_def py_getitem_def list_get_def)
  have s: "sort_events ?evs = Next (sort_key (\<lambda>e. the_int (fst e)) ?evs)"
    by (simp add: sort_events_def del: sort_key_simps)
  have "sum_list (map (\<lambda>e. max 0 (snd e)) (sort_key (\<lambda>e. the_int (fst e)) ?evs)) =
      sum_list (map (\<lambda>e. max 0 (snd e)) ?evs)"
    by (rule sum_list_sort_key)
  then have w: "sweep ?I 0 0 (sort_key (\<lambda>e. the_int (fst e)) ?evs) = Next ()"
    by (intro sweep_passes_small) (simp_all add: scenario4_def del: sort_key_simps)
  have cap: "capacity_loop ?I ?trs ?stv ?fts [0 ..< 1] = Next ()"
    using c s w by (simp add: scenario4_def del: sort_key_simps)
  have n: "nat (nb_tasks ?I) = 2" "nat (nb_resources ?I) = 1" "nb_tasks ?I = 2"
    by (simp_all add: scenario4_def)
  have "check_schedule ?I ?trs ?stv = Return (Makespan (max (s0 + p0) (s0 + p0 + p1)))"
    using f assms cap
    by (simp add: check_schedule_def n max.commute del: sort_key_simps upt_Suc)
  then show ?thesis
    by (simp add: evaluate_solution_def evaluate_body_def py_len_def n)
qed

theorem scenario4_feasible_witness:
  "evaluate_solution (scenario4 3 3 [[1], []])
     (PTuple [PList [PInt 0, PInt 0], PList [PInt 0, PInt 3]]) = Inr (Makespan 6)"
proof -
  have p: "precedence_loop (scenario4 3 3 [[1], []]) (PList [PInt 0, PInt (0 + 3)])
             [0 + 3, 0 + 3 + 3] [0 ..< 2] = Next ()"
    by code_simp
  show ?thesis
    using scenario4_feasible [OF p] by simp
qed

lemma tie_never_overloaded:
  "active_usage tie_instance [0, 0] [3, 0] 0 t \<le> capacity tie_instance ! 0"
proof -
  have two: "[0 ..< 2] = [0, Suc 0]" by (simp add: upt_conv_Cons)
  show ?thesis
    by (simp add: active_usage_def tie_instance_def finish_time_def proc_time_of_def two)
qed

text \<open>
  C1. The sweep compares after every single delta, in the order of the stable sort. On
  one resource of capacity 2 with two tasks of weight 2 and processing time 3, the
  schedule with intervals \<open>[0, 3)\<close> and \<open>[3, 6)\<close> is accepted when the earlier task has
  index 0 and is given the penalty when it has index 1, although at no instant more
  than 2 units are in use.
\<close>

theorem tie_depends_on_task_index:
  "evaluate_solution tie_instance
     (PTuple [PList [PInt 0, PInt 0], PList [PInt 0, PInt 3]]) = Inr (Makespan 6) \<and>
   evaluate_solution tie_instance
     (PTuple [PList [PInt 0, PInt 0], PList [PInt 3, PInt 0]]) = Inr Penalty \<and>
   sorted_events tie_instance [0, 0] [3, 0] [6, 3] 0 =
     [(PInt 0, 2), (PInt 3, 2), (PInt 3, - 2), (PInt 6, - 2)] \<and>
   (\<forall>t. active_usage tie_instance [0, 0] [3, 0] 0 t \<le> capacity tie_instance ! 0)"
proof -
  have "evaluate_solution tie_instance
     (PTuple [PList [PInt 0, PInt 0], PList [PInt 0, PInt 3]]) = Inr (Makespan 6)"
    by code_simp
  moreover have "evaluate_solution tie_instance
     (PTuple [PList [PInt 0, PInt 0], PList [PInt 3, PInt 0]]) = Inr Penalty"
    by code_simp
  moreover have "sorted_events tie_instance [0, 0] [3, 0] [6, 3] 0 =
     [(PInt 0, 2), (PInt 3, 2), (PInt 3, - 2), (PInt 6, - 2)]"
    by code_simp
  ultimately show ?thesis using tie_never_overloaded by simp
qed

subsection \<open>The running usage after the events up to an instant\<close>

lemma task_events_upto:
  assumes "sts ! i \<le> fts ! i"
  shows "sum_list (map snd (filter (\<lambda>e. the_int (fst e) \<le> t) (task_events I rs sts fts r i))) =
     (if rs ! i = int r \<and> sts ! i \<le> t \<and> t < fts ! i then weights I ! r ! i else 0)"
  using assms by (auto simp: task_events_def)

lemma events_upto:
  assumes "\<forall>i\<in>set js. rs ! i = int r \<longrightarrow> sts ! i \<le> fts ! i"
  shows "sum_list (map snd (filter (\<lambda>e. the_int (fst e) \<le> t)
            (concat (map (task_events I rs sts fts r) js)))) =
     sum_list (map (\<lambda>i. weights I ! r ! i)
       (filter (\<lambda>i. rs ! i = int r \<and> sts ! i \<le> t \<and> t < fts ! i) js))"
  using assms
proof (induction js)
  case Nil
  show ?case by simp
next
  case (Cons i js)
  show ?case
  proof (cases "rs ! i = int r")
    case True
    with Cons.prems have "sts ! i \<le> fts ! i" by simp
    from task_events_upto [OF this, of t I rs r] Cons show ?thesis by simp
  next
    case False
    with Cons show ?thesis by (simp add: task_events_def)
  qed
qed

lemma sorted_prefix_usage:
  fixes evs :: "event list"
  defines "key \<equiv> \<lambda>e :: event. the_int (fst e)"
  assumes "0 \<le> c" and "c < sum_list (map snd (filter (\<lambda>e. key e \<le> t) evs))"
  shows "\<exists>k<length (sort_key key evs). c < 0 + sum_list (map snd (take (Suc k) (sort_key key evs)))"
proof -
  let ?S = "sort_key key evs"
  let ?F = "filter (\<lambda>e. key e \<le> t) ?S"
  have "sorted (map key ?S)" by (rule sorted_sort_key)
  then have pre: "?F = take (length ?F) ?S" by (rule filter_le_sorted_take)
  have "?F = sort_key key (filter (\<lambda>e. key e \<le> t) evs)" by (rule filter_sort)
  then have sum: "sum_list (map snd ?F) = sum_list (map snd (filter (\<lambda>e. key e \<le> t) evs))"
    by (simp add: sum_list_sort_key del: sort_key_simps)
  with assms(2,3) have "?F \<noteq> []" by auto
  then obtain k where k: "length ?F = Suc k" by (cases ?F) auto
  have "length ?F \<le> length ?S" by (rule length_filter_le)
  with k have "k < length ?S" by simp
  moreover have "c < 0 + sum_list (map snd (take (Suc k) ?S))"
    using pre sum assms(3) k by simp
  ultimately show ?thesis by blast
qed

lemma overload_found:
  assumes sh: "shaped I" and nn: "nonneg_times I"
    and r: "r < nat (nb_resources I)"
    and over: "capacity I ! r < active_usage I rs sts r t"
  shows "sweep I r 0 (sorted_events I rs sts (finish_times_of I rs sts) r) = Return Penalty"
proof -
  let ?fts = "finish_times_of I rs sts"
  have rc: "r < length (capacity I)" using sh r by (simp add: shaped_def)
  have c0: "0 \<le> capacity I ! r"
    using nn rc by (simp add: nonneg_times_def list_all_length)
  have fin: "\<forall>i\<in>set [0 ..< nat (nb_tasks I)]. rs ! i = int r \<longrightarrow> sts ! i \<le> ?fts ! i"
  proof (intro ballI impI)
    fix i assume "i \<in> set [0 ..< nat (nb_tasks I)]" and ri: "rs ! i = int r"
    then have i: "i < nat (nb_tasks I)" by simp
    note rows = shaped_rows [OF sh i r]
    have "0 \<le> task_processing_time_data I ! i ! r"
      using nn rows(1,2) by (simp add: nonneg_times_def list_all_length)
    then show "sts ! i \<le> ?fts ! i"
      using i ri by (simp add: finish_times_of_def finish_time_def proc_time_of_def)
  qed
  have same: "filter (\<lambda>i. rs ! i = int r \<and> sts ! i \<le> t \<and> t < ?fts ! i) [0 ..< nat (nb_tasks I)] =
      filter (\<lambda>i. rs ! i = int r \<and> sts ! i \<le> t \<and> t < finish_time I rs sts i) [0 ..< nat (nb_tasks I)]"
    by (rule filter_cong) (auto simp: finish_times_of_def)
  have "sum_list (map snd (filter (\<lambda>e. the_int (fst e) \<le> t) (resource_events I rs sts ?fts r))) =
      active_usage I rs sts r t"
    unfolding resource_events_def active_usage_def events_upto [OF fin] same ..
  with over have "capacity I ! r <
      sum_list (map snd (filter (\<lambda>e. the_int (fst e) \<le> t) (resource_events I rs sts ?fts r)))"
    by simp
  from sorted_prefix_usage [OF c0 this] show ?thesis
    by (simp add: sweep_Penalty_iff [OF rc] sorted_events_def del: sort_key_simps)
qed

text \<open>
  C4. On a well-shaped instance with processing times and capacities that are not
  negative, and a candidate of two int sequences of length \<open>nb_tasks\<close>: when at some
  instant \<open>t\<close> the weights of the tasks assigned to a resource \<open>r\<close> whose interval
  \<open>[start, finish)\<close> contains \<open>t\<close> add up to more than \<open>capacity[r]\<close>, the evaluator
  returns the penalty.
\<close>

theorem capacity_property:
  assumes "shaped I" and "nonneg_times I"
    and "schedule_of solution rs sts"
    and "int (length rs) = nb_tasks I" and "int (length sts) = nb_tasks I"
    and "r < nat (nb_resources I)"
    and "capacity I ! r < active_usage I rs sts r t"
  shows "evaluate_solution I solution = Inr Penalty"
proof -
  have "sweep I r 0 (sorted_events I rs sts (finish_times_of I rs sts) r) = Return Penalty"
    by (rule overload_found [OF assms(1,2,6,7)])
  then have "sweep_violation I rs sts"
    using assms(6) by (intro sweep_violationI [of r]) simp_all
  then show ?thesis using evaluate_violation [OF assms(1,3)] by simp
qed

theorem capacity_property_witness:
  "evaluate_solution scenario3 (PTuple [PList [PInt 0, PInt 0], PList [PInt 0, PInt 1]]) =
     Inr Penalty"
proof -
  have h: "shaped scenario3" "nonneg_times scenario3"
    "schedule_of (PTuple [PList [PInt 0, PInt 0], PList [PInt 0, PInt 1]]) [0, 0] [0, 1]"
    "int (length [0, 0 :: int]) = nb_tasks scenario3"
    "int (length [0, 1 :: int]) = nb_tasks scenario3"
    "0 < nat (nb_resources scenario3)"
    "capacity scenario3 ! 0 < active_usage scenario3 [0, 0] [0, 1] 0 2"
    by code_simp+
  show ?thesis
    by (rule capacity_property [OF h])
qed

subsection \<open>Malformed candidates\<close>












subsection \<open>The loader never gets past its first statement\<close>

lemma load_os_fails: "load_global (module_globals file) ''os'' = Inl NameError"
  by (simp add: load_global_def module_globals_def builtin_names_def)

lemma loader_parses_with_os:
  "problem_init ((module_globals ''/repo/flexible_cumulative_problem.py'')
       (''os'' \<mapsto> OsModule slash_paths)) example_fs ''instance.txt'' =
     (Inr scenario2, [''/repo/instance.txt''])"
  by code_simp

text \<open>
  C10. The module binds no name \<open>os\<close> and the builtins have none, so the first
  statement of \<open>_read_instance\<close> raises \<open>NameError\<close> for every file name and every
  file system, before any file is opened; the constructor, which calls it, raises too
  and builds no instance.
\<close>

theorem read_instance_raises_NameError:
  "read_instance (module_globals file) fs filename = (Inl NameError, []) \<and>
   problem_init (module_globals file) fs filename = (Inl NameError, [])"
  by (simp add: problem_init_def read_instance_def resolve_filename_def load_os_fails)

theorem read_instance_raises_NameError_witness:
  "read_instance (module_globals ''/repo/flexible_cumulative_problem.py'')
     example_fs ''instance.txt'' = (Inl NameError, []) \<and>
   problem_init (module_globals ''/repo/flexible_cumulative_problem.py'')
     example_fs ''/repo/instance.txt'' = (Inl NameError, [])"
  using read_instance_raises_NameError [of "''/repo/flexible_cumulative_problem.py''"
      example_fs "''instance.txt''"]
    read_instance_raises_NameError [of "''/repo/flexible_cumulative_problem.py''"
      example_fs "''/repo/instance.txt''"]
  by simp

end
